theory Spec2Isabelle
  imports
    Complex_Main
    "HOL-Library.Multiset"
    "HOL-Library.Char_ord"
    "HOL-Library.List_Lexorder"
begin

section \<open>JavaScript numbers\<close>

text \<open>
  Every number of the sources is a JavaScript \<^verbatim>\<open>number\<close>: an IEEE 754 binary64 value.
  A finite value is modelled by the rational it denotes; the result of an arithmetic
  operation on finite values is the exact result rounded to the nearest binary64 value,
  ties to the even significand (\<open>fl\<close>), with overflow to an infinity.
  The sign of zero is not tracked: the model has one zero.
\<close>

datatype number = NaN | NegInf | Fin rat | PosInf

definition pow2 :: "int \<Rightarrow> rat" where
  "pow2 e = (if 0 \<le> e then 2 ^ nat e else 1 / 2 ^ nat (- e))"

text \<open>The number of binary digits of a positive integer.\<close>

function bitlen :: "int \<Rightarrow> nat" where
  "bitlen n = (if n \<le> 0 then 0 else Suc (bitlen (n div 2)))"
  by pat_completeness auto
termination
  by (relation "measure nat") auto

declare bitlen.simps [simp del]

text \<open>\<open>ilog2 r\<close> is the binary exponent of a positive rational: \<open>2^e \<le> r < 2^(e+1)\<close>.\<close>

definition ilog2 :: "rat \<Rightarrow> int" where
  "ilog2 r =
     (let e = int (bitlen (fst (quotient_of r))) - int (bitlen (snd (quotient_of r)))
      in if pow2 e \<le> r then e else e - 1)"

definition round_half_even :: "rat \<Rightarrow> int" where
  "round_half_even m =
     (let k = \<lfloor>m\<rfloor>; d = m - of_int k
      in if d < 1 / 2 then k else if 1 / 2 < d then k + 1 else if even k then k else k + 1)"

text \<open>
  Rounding to binary64: 53 significant bits, the least exponent of a unit in the last
  place is \<open>-1074\<close> (subnormal numbers), and a rounded magnitude of \<open>2^1024\<close> or more
  overflows.
\<close>

definition fl :: "rat \<Rightarrow> number" where
  "fl r =
     (if r = 0 then Fin 0
      else let u = pow2 (max (ilog2 \<bar>r\<bar> - 52) (- 1074));
               v = of_int (round_half_even (r / u)) * u
           in if 2 ^ 1024 \<le> \<bar>v\<bar> then (if 0 < r then PosInf else NegInf) else Fin v)"

fun js_neg :: "number \<Rightarrow> number" where
  "js_neg NaN = NaN"
| "js_neg NegInf = PosInf"
| "js_neg (Fin x) = Fin (- x)"
| "js_neg PosInf = NegInf"

text \<open>\<^verbatim>\<open>a + b\<close> on numbers.\<close>

fun js_add :: "number \<Rightarrow> number \<Rightarrow> number" where
  "js_add (Fin x) (Fin y) = fl (x + y)"
| "js_add NaN b = NaN"
| "js_add a NaN = NaN"
| "js_add PosInf NegInf = NaN"
| "js_add NegInf PosInf = NaN"
| "js_add PosInf b = PosInf"
| "js_add a PosInf = PosInf"
| "js_add NegInf b = NegInf"
| "js_add a NegInf = NegInf"

text \<open>\<^verbatim>\<open>a - b\<close> on numbers.\<close>

definition js_sub :: "number \<Rightarrow> number \<Rightarrow> number" where
  "js_sub a b = js_add a (js_neg b)"

definition sign_of :: "number \<Rightarrow> int" where
  "sign_of a =
     (case a of NaN \<Rightarrow> 0 | NegInf \<Rightarrow> - 1 | PosInf \<Rightarrow> 1
      | Fin x \<Rightarrow> if x < 0 then - 1 else if 0 < x then 1 else 0)"

text \<open>\<^verbatim>\<open>a * b\<close> on numbers: an infinity times zero is \<^verbatim>\<open>NaN\<close>.\<close>

fun js_mul :: "number \<Rightarrow> number \<Rightarrow> number" where
  "js_mul (Fin x) (Fin y) = fl (x * y)"
| "js_mul NaN b = NaN"
| "js_mul a NaN = NaN"
| "js_mul a b =
     (if sign_of a * sign_of b = 0 then NaN
      else if 0 < sign_of a * sign_of b then PosInf else NegInf)"

text \<open>
  \<^verbatim>\<open>a / b\<close> on numbers. A zero divisor is read as \<^verbatim>\<open>+0\<close>; the sources divide by the
  literal \<^verbatim>\<open>2\<close> only.
\<close>

fun js_div :: "number \<Rightarrow> number \<Rightarrow> number" where
  "js_div (Fin x) (Fin y) =
     (if y = 0 then (if x = 0 then NaN else if 0 < x then PosInf else NegInf)
      else fl (x / y))"
| "js_div NaN b = NaN"
| "js_div a NaN = NaN"
| "js_div (Fin x) b = Fin 0"
| "js_div a (Fin y) = (if 0 < sign_of a * (if y < 0 then - 1 else 1) then PosInf else NegInf)"
| "js_div a b = NaN"

text \<open>\<^verbatim>\<open>a < b\<close>, \<^verbatim>\<open>a > b\<close> and \<^verbatim>\<open>a <= b\<close> on numbers: false whenever an operand is \<^verbatim>\<open>NaN\<close>.\<close>

fun num_lt :: "number \<Rightarrow> number \<Rightarrow> bool" where
  "num_lt (Fin x) (Fin y) = (x < y)"
| "num_lt NegInf (Fin y) = True"
| "num_lt NegInf PosInf = True"
| "num_lt (Fin x) PosInf = True"
| "num_lt a b = False"

definition num_gt :: "number \<Rightarrow> number \<Rightarrow> bool" where
  "num_gt a b = num_lt b a"

definition num_le :: "number \<Rightarrow> number \<Rightarrow> bool" where
  "num_le a b = (num_lt a b \<or> (a = b \<and> a \<noteq> NaN))"

section \<open>Problem 1: three ways to sum to n\<close>

text \<open>
  \<^verbatim>\<open>var sum_to_n_a = function(n) { return (n * (n + 1)) / 2; };\<close>
\<close>

definition sum_to_n_a :: "number \<Rightarrow> number" where
  "sum_to_n_a n = js_div (js_mul n (js_add n (Fin 1))) (Fin 2)"

text \<open>
  \<^verbatim>\<open>let sum = 0; for (let i = 1; i <= n; i++) { sum += i; } return sum;\<close>
  The loop need not end (the counter stops growing at \<open>2^53\<close>), so it is a partial
  function: \<open>None\<close> is a run that never returns. The variable \<^verbatim>\<open>sum\<close> is \<open>acc\<close>.
\<close>

partial_function (option) sum_to_n_b_loop :: "number \<Rightarrow> number \<Rightarrow> number \<Rightarrow> number option" where
  "sum_to_n_b_loop n acc i =
     (if num_le i n then sum_to_n_b_loop n (js_add acc i) (js_add i (Fin 1)) else Some acc)"

declare sum_to_n_b_loop.simps [code]

definition sum_to_n_b :: "number \<Rightarrow> number option" where
  "sum_to_n_b n = sum_to_n_b_loop n (Fin 0) (Fin 1)"

text \<open>
  \<^verbatim>\<open>if (n <= 0) return 0; return n + sum_to_n_c(n - 1);\<close>
  The recursion is not a tail call: every nested call holds a frame of the call stack
  until the calls below it have returned, and the stack of an engine is finite. The
  number of nested calls of this function the stack has room for, which depends on the
  engine, is the parameter \<open>frames\<close>. A call for which there is no room throws
  \<^verbatim>\<open>RangeError\<close> (maximum call stack size exceeded); nothing in the source catches it,
  so it is the outcome of the whole call.
\<close>

datatype error = RangeError

fun sum_to_n_c :: "nat \<Rightarrow> number \<Rightarrow> error + number" where
  "sum_to_n_c 0 n = Inl RangeError"
| "sum_to_n_c (Suc frames) n =
     (if num_le n (Fin 0) then Inr (Fin 0)
      else case sum_to_n_c frames (js_sub n (Fin 1)) of
             Inl e \<Rightarrow> Inl e
           | Inr r \<Rightarrow> Inr (js_add n r))"

section \<open>JavaScript values, plain objects and operators\<close>

text \<open>
  The values a property read of the sources can yield: \<^verbatim>\<open>undefined\<close>, a number, a built-in
  function object (named by its \<^verbatim>\<open>name\<close>), or the object \<^verbatim>\<open>Object.prototype\<close>.
\<close>

datatype jsval = Undefined | Num number | BuiltinFn string | ObjectPrototype

text \<open>
  The properties every plain object (an object literal, a parsed JSON object) inherits
  from \<^verbatim>\<open>Object.prototype\<close>: the standard methods, the legacy accessor helpers, and the
  accessor \<^verbatim>\<open>__proto__\<close>, whose getter returns the prototype of the receiver.
\<close>

definition Object_prototype :: "(string \<times> jsval) list" where
  "Object_prototype =
     [(''constructor'', BuiltinFn ''Object''),
      (''hasOwnProperty'', BuiltinFn ''hasOwnProperty''),
      (''isPrototypeOf'', BuiltinFn ''isPrototypeOf''),
      (''propertyIsEnumerable'', BuiltinFn ''propertyIsEnumerable''),
      (''toLocaleString'', BuiltinFn ''toLocaleString''),
      (''toString'', BuiltinFn ''toString''),
      (''valueOf'', BuiltinFn ''valueOf''),
      (''__defineGetter__'', BuiltinFn ''__defineGetter__''),
      (''__defineSetter__'', BuiltinFn ''__defineSetter__''),
      (''__lookupGetter__'', BuiltinFn ''__lookupGetter__''),
      (''__lookupSetter__'', BuiltinFn ''__lookupSetter__''),
      (''__proto__'', ObjectPrototype)]"

text \<open>
  \<^verbatim>\<open>obj[key]\<close> on a plain object whose own properties are the number-valued entries of
  \<open>own\<close>: an own property wins, then the prototype is searched, and a miss is
  \<^verbatim>\<open>undefined\<close>.
\<close>

definition js_get :: "(string \<rightharpoonup> number) \<Rightarrow> string \<Rightarrow> jsval" where
  "js_get own key =
     (case own key of
        Some v \<Rightarrow> Num v
      | None \<Rightarrow> (case map_of Object_prototype key of Some v \<Rightarrow> v | None \<Rightarrow> Undefined))"

text \<open>\<^verbatim>\<open>a ?? b\<close>: the right operand replaces \<^verbatim>\<open>undefined\<close> (no value here is \<^verbatim>\<open>null\<close>).\<close>

definition nullish :: "jsval \<Rightarrow> jsval \<Rightarrow> jsval" where
  "nullish a b = (if a = Undefined then b else a)"

text \<open>
  The primitive an object converts to (\<^verbatim>\<open>valueOf\<close> returns the object itself, so
  \<^verbatim>\<open>toString\<close> decides): the source text of a built-in function, and
  \<^verbatim>\<open>[object Object]\<close> for \<^verbatim>\<open>Object.prototype\<close>. \<open>None\<close> for a value that is a primitive
  already.
\<close>

fun ToPrimitive_string :: "jsval \<Rightarrow> string option" where
  "ToPrimitive_string (BuiltinFn name) = Some (''function '' @ name @ ''() { [native code] }'')"
| "ToPrimitive_string ObjectPrototype = Some ''[object Object]''"
| "ToPrimitive_string v = None"

text \<open>
  \<^verbatim>\<open>ToNumber\<close>: \<^verbatim>\<open>undefined\<close> is \<^verbatim>\<open>NaN\<close>, and so is an object, since neither string above
  is a numeric literal.
\<close>

fun ToNumber :: "jsval \<Rightarrow> number" where
  "ToNumber (Num n) = n"
| "ToNumber v = NaN"

text \<open>
  \<^verbatim>\<open>a > b\<close> on values: two strings are compared by code units, anything else as numbers.
\<close>

definition js_gt :: "jsval \<Rightarrow> jsval \<Rightarrow> bool" where
  "js_gt a b =
     (case (ToPrimitive_string a, ToPrimitive_string b) of
        (Some s, Some t) \<Rightarrow> t < s
      | _ \<Rightarrow> num_gt (ToNumber a) (ToNumber b))"

text \<open>\<^verbatim>\<open>a - b\<close> and \<^verbatim>\<open>a * b\<close> on values.\<close>

definition js_minus :: "jsval \<Rightarrow> jsval \<Rightarrow> number" where
  "js_minus a b = js_sub (ToNumber a) (ToNumber b)"

definition js_times :: "jsval \<Rightarrow> jsval \<Rightarrow> number" where
  "js_times a b = js_mul (ToNumber a) (ToNumber b)"

section \<open>Sorting an array and formatting a number\<close>

text \<open>
  \<^verbatim>\<open>Array.prototype.sort\<close> reads a comparator result \<open>v\<close> as \<open>+0\<close> when it is \<^verbatim>\<open>NaN\<close>,
  and puts \<open>x\<close> after \<open>y\<close> when \<open>v > 0\<close>. It is stable. For a consistent comparator the
  result is determined: it is what stable insertion computes, each element entering,
  from the right, the sorted suffix behind it.
\<close>

definition SortCompare :: "('a \<Rightarrow> 'a \<Rightarrow> number) \<Rightarrow> 'a \<Rightarrow> 'a \<Rightarrow> number" where
  "SortCompare comparefn x y = (let v = comparefn x y in if v = NaN then Fin 0 else v)"

primrec sort_insert :: "('a \<Rightarrow> 'a \<Rightarrow> number) \<Rightarrow> 'a \<Rightarrow> 'a list \<Rightarrow> 'a list" where
  "sort_insert comparefn x [] = [x]"
| "sort_insert comparefn x (y # ys) =
     (if num_gt (SortCompare comparefn x y) (Fin 0) then y # sort_insert comparefn x ys
      else x # y # ys)"

definition Array_sort :: "('a \<Rightarrow> 'a \<Rightarrow> number) \<Rightarrow> 'a list \<Rightarrow> 'a list" where
  "Array_sort comparefn xs = foldr (sort_insert comparefn) xs []"

text \<open>The decimal digits of a non-negative integer.\<close>

function decimal :: "int \<Rightarrow> string" where
  "decimal n =
     (if n < 10 then [''0123456789'' ! nat n]
      else decimal (n div 10) @ [''0123456789'' ! nat (n mod 10)])"
  by pat_completeness auto
termination
  by (relation "measure nat") auto

declare decimal.simps [simp del]

text \<open>
  \<^verbatim>\<open>x.toFixed(f)\<close> for \<open>0 \<le> f \<le> 100\<close>. A value that is not finite is rendered by
  \<^verbatim>\<open>Number::toString\<close>, and so is a magnitude of \<open>10^21\<close> or more, in exponential
  notation: that rendering is the parameter \<open>Number_toString\<close>. Otherwise the digits
  are those of the integer \<open>n\<close> nearest to \<open>x * 10^f\<close>, the larger one at a tie.
\<close>

definition toFixed :: "(rat \<Rightarrow> string) \<Rightarrow> nat \<Rightarrow> number \<Rightarrow> string" where
  "toFixed Number_toString f x =
     (case x of
        NaN \<Rightarrow> ''NaN''
      | PosInf \<Rightarrow> ''Infinity''
      | NegInf \<Rightarrow> ''-Infinity''
      | Fin r \<Rightarrow>
          (let s = (if r < 0 then ''-'' else []); a = \<bar>r\<bar>
           in if 10 ^ 21 \<le> a then s @ Number_toString a
              else let m = decimal \<lfloor>a * 10 ^ f + 1 / 2\<rfloor>;
                       z = replicate (f + 1 - length m) CHR ''0'' @ m
                   in if f = 0 then s @ m
                      else s @ take (length z - f) z @ ''.'' @ drop (length z - f) z))"

section \<open>Problem 3: the wallet page\<close>

text \<open>
  \<^verbatim>\<open>interface WalletBalance { currency: string; amount: number; blockchain: string }\<close>
  (the refactored and the optimal component narrow \<^verbatim>\<open>blockchain\<close> to the type
  \<^verbatim>\<open>Blockchain\<close>, which is erased at run time), and
  \<^verbatim>\<open>interface FormattedWalletBalance extends WalletBalance { formatted: string; usdValue: number }\<close>.
\<close>

record WalletBalance =
  currency :: string
  amount :: number
  blockchain :: string

record FormattedWalletBalance = WalletBalance +
  formatted :: string
  usdValue :: number

text \<open>The properties the wallet page of the exam passes to each \<^verbatim>\<open>WalletRow\<close>.\<close>

record WalletRowProps =
  row_className :: string
  row_key :: string
  row_amount :: number
  row_usdValue :: number
  row_formattedAmount :: string

text \<open>\<^verbatim>\<open>type Blockchain = 'Osmosis' | 'Ethereum' | 'Arbitrum' | 'Zilliqa' | 'Neo'\<close>\<close>

definition Blockchain :: "string list" where
  "Blockchain = [''Osmosis'', ''Ethereum'', ''Arbitrum'', ''Zilliqa'', ''Neo'']"

definition BLOCKCHAIN_PRIORITIES :: "string \<rightharpoonup> number" where
  "BLOCKCHAIN_PRIORITIES =
     map_of [(''Osmosis'', Fin 100), (''Ethereum'', Fin 50), (''Arbitrum'', Fin 30),
             (''Zilliqa'', Fin 20), (''Neo'', Fin 20)]"

definition DEFAULT_PRIORITY :: number where
  "DEFAULT_PRIORITY = Fin (- 99)"

text \<open>
  \<^verbatim>\<open>return BLOCKCHAIN_PRIORITIES[blockchain] ?? DEFAULT_PRIORITY;\<close>
  The three components define the same function (the refactored one writes \<^verbatim>\<open>-99\<close>);
  its parameter \<^verbatim>\<open>blockchain\<close> is \<open>chain\<close> here.
\<close>

definition getPriority :: "string \<Rightarrow> jsval" where
  "getPriority chain = nullish (js_get BLOCKCHAIN_PRIORITIES chain) (Num DEFAULT_PRIORITY)"

text \<open>
  The filter of the three components:
  \<^verbatim>\<open>getPriority(balance.blockchain) > DEFAULT_PRIORITY && balance.amount > 0\<close>.
\<close>

definition keep_balance :: "WalletBalance \<Rightarrow> bool" where
  "keep_balance balance =
     (js_gt (getPriority (blockchain balance)) (Num DEFAULT_PRIORITY) \<and> num_gt (amount balance) (Fin 0))"

text \<open>The comparator of the exam: the three-way \<^verbatim>\<open>if\<close>.\<close>

definition exam_compare :: "WalletBalance \<Rightarrow> WalletBalance \<Rightarrow> number" where
  "exam_compare lhs rhs =
     (let leftPriority = getPriority (blockchain lhs);
          rightPriority = getPriority (blockchain rhs)
      in if js_gt leftPriority rightPriority then Fin (- 1)
         else if js_gt rightPriority leftPriority then Fin 1
         else Fin 0)"

text \<open>The comparator of the refactored component: \<^verbatim>\<open>return rightPriority - leftPriority;\<close>\<close>

definition refactored_compare :: "WalletBalance \<Rightarrow> WalletBalance \<Rightarrow> number" where
  "refactored_compare lhs rhs =
     (let leftPriority = getPriority (blockchain lhs);
          rightPriority = getPriority (blockchain rhs)
      in js_minus rightPriority leftPriority)"

text \<open>
  The comparator of the optimal component:
  \<^verbatim>\<open>return getPriority(rhs.blockchain) - getPriority(lhs.blockchain);\<close>
\<close>

definition sortByPriorityDesc :: "WalletBalance \<Rightarrow> WalletBalance \<Rightarrow> number" where
  "sortByPriorityDesc lhs rhs = js_minus (getPriority (blockchain rhs)) (getPriority (blockchain lhs))"

text \<open>The exam: \<^verbatim>\<open>sortedBalances\<close>, then \<^verbatim>\<open>rows\<close> with \<^verbatim>\<open>balance.amount.toFixed()\<close>.\<close>

definition exam_sortedBalances :: "WalletBalance list \<Rightarrow> WalletBalance list" where
  "exam_sortedBalances balances = Array_sort exam_compare (filter keep_balance balances)"

definition exam_rows ::
  "(rat \<Rightarrow> string) \<Rightarrow> WalletBalance list \<Rightarrow> (string \<rightharpoonup> number) \<Rightarrow> WalletRowProps list" where
  "exam_rows Number_toString balances prices =
     map (\<lambda>balance.
            \<lparr>row_className = ''wallet-row'',
             row_key = blockchain balance @ ''-'' @ currency balance,
             row_amount = amount balance,
             row_usdValue = js_times (js_get prices (currency balance)) (Num (amount balance)),
             row_formattedAmount = toFixed Number_toString 0 (amount balance)\<rparr>)
         (exam_sortedBalances balances)"

text \<open>
  The refactored component: \<^verbatim>\<open>formatted: balance.amount.toFixed(2)\<close> and
  \<^verbatim>\<open>usdValue: prices[balance.currency] * balance.amount\<close>.
\<close>

definition refactored_formattedBalances ::
  "(rat \<Rightarrow> string) \<Rightarrow> WalletBalance list \<Rightarrow> (string \<rightharpoonup> number) \<Rightarrow> FormattedWalletBalance list" where
  "refactored_formattedBalances Number_toString balances prices =
     map (\<lambda>balance.
            \<lparr>currency = currency balance, amount = amount balance, blockchain = blockchain balance,
             formatted = toFixed Number_toString 2 (amount balance),
             usdValue = js_times (js_get prices (currency balance)) (Num (amount balance))\<rparr>)
         (Array_sort refactored_compare (filter keep_balance balances))"

text \<open>
  The optimal component: \<^verbatim>\<open>formatted = balance.amount.toFixed(2)\<close> and
  \<^verbatim>\<open>usdValue = (prices[balance.currency] ?? 0) * balance.amount\<close>.
\<close>

definition optimal_formattedBalances ::
  "(rat \<Rightarrow> string) \<Rightarrow> WalletBalance list \<Rightarrow> (string \<rightharpoonup> number) \<Rightarrow> FormattedWalletBalance list" where
  "optimal_formattedBalances Number_toString balances prices =
     map (\<lambda>balance.
            \<lparr>currency = currency balance, amount = amount balance, blockchain = blockchain balance,
             formatted = toFixed Number_toString 2 (amount balance),
             usdValue = js_times (nullish (js_get prices (currency balance)) (Num (Fin 0)))
                          (Num (amount balance))\<rparr>)
         (Array_sort sortByPriorityDesc (filter keep_balance balances))"

text \<open>The balance a formatted balance extends.\<close>

definition balance_of :: "FormattedWalletBalance \<Rightarrow> WalletBalance" where
  "balance_of r = \<lparr>currency = currency r, amount = amount r, blockchain = blockchain r\<rparr>"

text \<open>The sort key the comparators induce on balances of numeric priority: higher first.\<close>

definition rank :: "WalletBalance \<Rightarrow> rat" where
  "rank balance = (case getPriority (blockchain balance) of Num (Fin p) \<Rightarrow> - p | _ \<Rightarrow> 0)"

text \<open>
  The balances of the concrete scenario of the specification, used to run the pipeline:
  \<^verbatim>\<open>ETH\<close> 10 on Ethereum, \<^verbatim>\<open>OSMO\<close> 0 on Osmosis, \<^verbatim>\<open>ZIL\<close> -5 on Zilliqa,
  \<^verbatim>\<open>ARB\<close> 20 on Arbitrum, \<^verbatim>\<open>NEO\<close> 15 on Neo.
\<close>

definition scenario_balances :: "WalletBalance list" where
  "scenario_balances =
     [\<lparr>currency = ''ETH'', amount = Fin 10, blockchain = ''Ethereum''\<rparr>,
      \<lparr>currency = ''OSMO'', amount = Fin 0, blockchain = ''Osmosis''\<rparr>,
      \<lparr>currency = ''ZIL'', amount = Fin (- 5), blockchain = ''Zilliqa''\<rparr>,
      \<lparr>currency = ''ARB'', amount = Fin 20, blockchain = ''Arbitrum''\<rparr>,
      \<lparr>currency = ''NEO'', amount = Fin 15, blockchain = ''Neo''\<rparr>]"

section \<open>Rounding is exact on small integers\<close>

lemma floor_numeral_div_rat [simp]: "\<lfloor>(numeral a :: rat) / numeral b\<rfloor> = numeral a div numeral b"
  using floor_divide_of_int_eq [of "numeral a" "numeral b", where ?'a = rat] by simp

lemma bitlen_pos: "0 < n \<Longrightarrow> bitlen n = Suc (bitlen (n div 2))"
  by (subst bitlen.simps) simp

lemma bitlen_nonpos: "n \<le> 0 \<Longrightarrow> bitlen n = 0"
  by (subst bitlen.simps) simp

lemma bitlen_bounds: "0 < n \<Longrightarrow> 2 ^ (bitlen n - 1) \<le> n \<and> n < 2 ^ bitlen n"
proof (induction "nat n" arbitrary: n rule: less_induct)
  case less
  show ?case
  proof (cases "n div 2 = 0")
    case True
    with less.prems have "n = 1" by presburger
    then show ?thesis by (simp add: bitlen_pos bitlen_nonpos)
  next
    case False
    with less.prems have pos: "0 < n div 2" by presburger
    have "n div 2 < n" using less.prems by presburger
    then have lt: "nat (n div 2) < nat n" using pos by linarith
    have IH: "2 ^ (bitlen (n div 2) - 1) \<le> n div 2 \<and> n div 2 < 2 ^ bitlen (n div 2)"
      using less.hyps [OF lt pos] .
    obtain b where b: "bitlen (n div 2) = Suc b"
      using bitlen_pos [OF pos] by blast
    have "bitlen n = Suc (Suc b)" using bitlen_pos [OF less.prems] b by simp
    moreover have "2 * 2 ^ b \<le> n" using IH b by simp presburger
    moreover have "n < 2 * (2 * 2 ^ b)" using IH b by simp presburger
    ultimately show ?thesis by simp
  qed
qed

lemma bitlen_le: "n < 2 ^ w \<Longrightarrow> bitlen n \<le> w"
proof (cases "n \<le> 0")
  case True
  then show ?thesis by (simp add: bitlen_nonpos)
next
  case False
  assume lt: "n < 2 ^ w"
  from False have "2 ^ (bitlen n - 1) \<le> n" using bitlen_bounds [of n] by simp
  with lt have "(2::int) ^ (bitlen n - 1) < 2 ^ w" by linarith
  then have "bitlen n - 1 < w" by (rule power_less_imp_less_exp [rotated]) simp
  then show ?thesis by simp
qed

lemma quotient_of_of_int: "quotient_of (of_int a) = (a, 1)"
  by (simp add: of_int_rat quotient_of_Fract)

lemma pow2_pos: "0 < pow2 e"
  by (simp add: pow2_def)

lemma ilog2_of_int: "0 < a \<Longrightarrow> ilog2 (of_int a) = int (bitlen a) - 1"
proof -
  assume a: "0 < a"
  have b1: "bitlen 1 = Suc 0" by (simp add: bitlen_pos bitlen_nonpos)
  have "(2::int) ^ (bitlen a - 1) \<le> a" using bitlen_bounds [of a] a by simp
  then have "(of_int (2 ^ (bitlen a - 1)) :: rat) \<le> of_int a"
    by (simp only: of_int_le_iff)
  then have le: "(2::rat) ^ (bitlen a - 1) \<le> of_int a" by simp
  have posb: "0 < bitlen a" using bitlen_pos [of a] a by simp
  have "pow2 (int (bitlen a) - 1) = 2 ^ (bitlen a - 1)"
    using posb by (simp add: pow2_def nat_diff_distrib')
  with le show ?thesis
    by (simp add: ilog2_def quotient_of_of_int b1 Let_def)
qed

lemma round_half_even_of_int: "round_half_even (of_int j) = j"
  by (simp add: round_half_even_def)

lemma fl_exact:
  assumes u: "pow2 (max (ilog2 \<bar>of_int k\<bar> - 52) (- 1074)) = u"
    and j: "of_int k / u = of_int j"
    and bound: "\<bar>of_int k :: rat\<bar> < 2 ^ 1024"
  shows "fl (of_int k) = Fin (of_int k)"
proof (cases "k = 0")
  case True
  then show ?thesis by (simp add: fl_def)
next
  case False
  have upos: "0 < u" using u pow2_pos [of "max (ilog2 \<bar>of_int k\<bar> - 52) (- 1074)"] by simp
  have v: "of_int (round_half_even (of_int k / u)) * u = (of_int k :: rat)"
    using upos j by (simp add: round_half_even_of_int field_simps)
  have nz: "(of_int k :: rat) \<noteq> 0" using False by simp
  have nov: "\<not> 2 ^ 1024 \<le> \<bar>of_int k :: rat\<bar>" using bound by (simp only: not_le)
  show ?thesis
    unfolding fl_def Let_def u v by (simp only: nz nov if_False)
qed

lemma abs_of_int_rat: "\<bar>of_int k :: rat\<bar> = of_int \<bar>k\<bar>"
  by simp

lemma fl_int_small:
  assumes "\<bar>k\<bar> < 2 ^ 53"
  shows "fl (of_int k) = Fin (of_int k)"
proof (cases "k = 0")
  case True
  then show ?thesis by (simp add: fl_def)
next
  case False
  define a where "a = \<bar>k\<bar>"
  have a: "0 < a" "a < 2 ^ 53" using False assms by (simp_all add: a_def)
  have bl: "bitlen a \<le> 53" using a(2) by (rule bitlen_le)
  have blpos: "0 < bitlen a" using bitlen_pos [of a] a by simp
  define d where "d = 53 - bitlen a"
  have e: "max (ilog2 (of_int a) - 52) (- 1074) = - int d"
    using bl blpos by (simp add: ilog2_of_int [OF a(1)] d_def)
  have u: "pow2 (max (ilog2 \<bar>of_int k\<bar> - 52) (- 1074)) = 1 / 2 ^ d"
    unfolding abs_of_int_rat a_def [symmetric] e by (simp add: pow2_def)
  have j: "(of_int k :: rat) / (1 / 2 ^ d) = of_int (k * 2 ^ d)" by simp
  have "(of_int a :: rat) < of_int (2 ^ 53)" using a(2) by (simp only: of_int_less_iff)
  then have "(of_int a :: rat) < 2 ^ 53" by simp
  also have "(2::rat) ^ 53 \<le> 2 ^ 1024" by (rule power_increasing) simp_all
  finally have bound: "\<bar>of_int k :: rat\<bar> < 2 ^ 1024" by (simp add: a_def)
  show ?thesis by (rule fl_exact [OF u j bound])
qed

lemma fl_int_dvd:
  assumes lo: "2 ^ 53 \<le> \<bar>k\<bar>" and hi: "\<bar>k\<bar> < 2 ^ 1024"
    and dvd: "2 ^ (bitlen \<bar>k\<bar> - 53) dvd k"
  shows "fl (of_int k) = Fin (of_int k)"
proof -
  define a where "a = \<bar>k\<bar>"
  have a: "0 < a" using lo by (simp add: a_def)
  have "\<not> bitlen a \<le> 53"
  proof
    assume "bitlen a \<le> 53"
    then have "(2::int) ^ bitlen a \<le> 2 ^ 53" by (intro power_increasing) simp_all
    moreover have "a < 2 ^ bitlen a" using bitlen_bounds [of a] a by simp
    ultimately have "a < 2 ^ 53" by linarith
    then show False using lo by (simp add: a_def)
  qed
  then have bl: "53 < bitlen a" by simp
  define d where "d = bitlen a - 53"
  have e: "max (ilog2 (of_int a) - 52) (- 1074) = int d"
    using bl by (simp add: ilog2_of_int [OF a] d_def)
  have u: "pow2 (max (ilog2 \<bar>of_int k\<bar> - 52) (- 1074)) = 2 ^ d"
    unfolding abs_of_int_rat a_def [symmetric] e by (simp add: pow2_def)
  from dvd obtain j where jk: "k = 2 ^ d * j" unfolding d_def a_def by (elim dvdE)
  have j: "(of_int k :: rat) / 2 ^ d = of_int j" by (simp add: jk)
  have "(of_int a :: rat) < of_int (2 ^ 1024)" using hi unfolding a_def by (simp only: of_int_less_iff)
  then have bound: "\<bar>of_int k :: rat\<bar> < 2 ^ 1024"
    unfolding abs_of_int_rat a_def by (simp only: of_int_power of_int_numeral)
  show ?thesis by (rule fl_exact [OF u j bound])
qed

lemma fl_int_even:
  assumes "\<bar>k\<bar> \<le> 2 ^ 54" and "even k"
  shows "fl (of_int k) = Fin (of_int k)"
proof -
  consider "\<bar>k\<bar> < 2 ^ 53" | "2 ^ 53 \<le> \<bar>k\<bar>" "\<bar>k\<bar> < 2 ^ 54" | "\<bar>k\<bar> = 2 ^ 54"
    using assms(1) by linarith
  then show ?thesis
  proof cases
    case 1
    then show ?thesis by (rule fl_int_small)
  next
    case 2
    have "bitlen \<bar>k\<bar> \<le> 54" using 2(2) by (rule bitlen_le)
    then have "bitlen \<bar>k\<bar> - 53 = 0 \<or> bitlen \<bar>k\<bar> - 53 = 1" by linarith
    then have "2 ^ (bitlen \<bar>k\<bar> - 53) dvd k" using assms(2) by auto
    moreover have "(2::int) ^ 54 \<le> 2 ^ 1024" by (rule power_increasing) simp_all
    then have "\<bar>k\<bar> < 2 ^ 1024" using 2(2) by (rule less_le_trans [rotated])
    ultimately show ?thesis using 2(1) by (intro fl_int_dvd)
  next
    case 3
    then have "k = 2 ^ 54 \<or> k = - (2 ^ 54)" by linarith
    moreover have "fl (of_int (2 ^ 54)) = Fin (of_int (2 ^ 54))"
      by (simp add: fl_def ilog2_def pow2_def round_half_even_def bitlen.simps Let_def)
    moreover have "fl (of_int (- (2 ^ 54))) = Fin (of_int (- (2 ^ 54)))"
      by (simp add: fl_def ilog2_def pow2_def round_half_even_def bitlen.simps Let_def)
    ultimately show ?thesis by (elim disjE) (simp_all only:)
  qed
qed

lemma fl_int_le:
  assumes "\<bar>k\<bar> \<le> 2 ^ 53"
  shows "fl (of_int k) = Fin (of_int k)"
proof (cases "\<bar>k\<bar> < 2 ^ 53")
  case True
  then show ?thesis by (rule fl_int_small)
next
  case False
  with assms have "k = 2 ^ 53 \<or> k = - (2 ^ 53)" by linarith
  then have "even k" by auto
  moreover have "\<bar>k\<bar> \<le> 2 ^ 54" using assms by simp
  ultimately show ?thesis by (intro fl_int_even)
qed

lemma js_add_int:
  "\<bar>a + b\<bar> \<le> 2 ^ 53 \<Longrightarrow> js_add (Fin (of_int a)) (Fin (of_int b)) = Fin (of_int (a + b))"
  using fl_int_le [of "a + b"] by simp

lemma js_sub_int:
  "\<bar>a - b\<bar> \<le> 2 ^ 53 \<Longrightarrow> js_sub (Fin (of_int a)) (Fin (of_int b)) = Fin (of_int (a - b))"
  using fl_int_le [of "a - b"] by (simp add: js_sub_def)

lemma num_le_int: "num_le (Fin (of_int a)) (Fin (of_int b)) = (a \<le> b)"
  by (auto simp add: num_le_def)

lemma tri_double: "2 * (n * (n + 1) div 2) = n * (n + 1)" for n :: int
  by simp

lemma tri_step: "(n - 1) * n div 2 + n = n * (n + 1) div 2" for n :: int
proof -
  have "2 * ((n - 1) * n div 2 + n) = 2 * (n * (n + 1) div 2)"
    using tri_double [of n] tri_double [of "n - 1"] by (simp add: algebra_simps)
  then show ?thesis by simp
qed

lemma tri_mono: "0 \<le> i \<Longrightarrow> i \<le> n \<Longrightarrow> i * (i + 1) div 2 \<le> n * (n + 1) div 2" for n :: int
  by (intro zdiv_mono1 mult_mono) simp_all

lemma tri_nonneg: "0 \<le> n \<Longrightarrow> 0 \<le> n * (n + 1) div 2" for n :: int
  by (simp add: pos_imp_zdiv_nonneg_iff)

section \<open>The three sums on exactly representable values\<close>

lemma tri_ge_succ: "0 \<le> n \<Longrightarrow> n * (n + 1) div 2 \<le> 2 ^ 53 \<Longrightarrow> n + 1 \<le> 2 ^ 53" for n :: int
proof -
  assume n: "0 \<le> n" and t: "n * (n + 1) div 2 \<le> 2 ^ 53"
  show ?thesis
  proof (cases "n \<le> 1")
    case True
    then show ?thesis by simp
  next
    case False
    then have "1 * (1 + 1) div 2 \<le> (n - 1) * (n - 1 + 1) div 2"
      by (intro tri_mono) simp_all
    then have "1 \<le> (n - 1) * n div 2" by simp
    then show ?thesis using tri_step [of n] t by linarith
  qed
qed

lemma half_eq: "2 * x = y \<Longrightarrow> y / 2 = x" for x y :: rat
  by simp

lemma sum_to_n_a_exact:
  assumes n: "0 \<le> n" and t: "n * (n + 1) div 2 \<le> 2 ^ 53"
  shows "sum_to_n_a (Fin (of_int n)) = Fin (of_int (n * (n + 1) div 2))"
proof -
  have n1: "\<bar>n + 1\<bar> \<le> 2 ^ 53" using tri_ge_succ [OF n t] n by simp
  have add: "js_add (Fin (of_int n)) (Fin 1) = Fin (of_int (n + 1))"
    using js_add_int [of n 1] n1 by simp
  have "(2::int) ^ 54 = 2 * 2 ^ 53" by simp
  then have "\<bar>n * (n + 1)\<bar> \<le> 2 ^ 54"
    using tri_double [of n] t tri_nonneg [OF n] by linarith
  then have mul: "fl (of_int (n * (n + 1))) = Fin (of_int (n * (n + 1)))"
    by (intro fl_int_even) simp_all
  have half: "(of_int (n * (n + 1)) :: rat) / 2 = of_int (n * (n + 1) div 2)"
  proof -
    have "(of_int (2 * (n * (n + 1) div 2)) :: rat) = of_int (n * (n + 1))"
      by (simp only: tri_double)
    then have "2 * (of_int (n * (n + 1) div 2) :: rat) = of_int (n * (n + 1))"
      by (simp only: of_int_mult of_int_numeral)
    then show ?thesis by (rule half_eq)
  qed
  have "\<bar>n * (n + 1) div 2\<bar> \<le> 2 ^ 53" using t tri_nonneg [OF n] by simp
  then have dv: "fl (of_int (n * (n + 1) div 2)) = Fin (of_int (n * (n + 1) div 2))"
    by (rule fl_int_le)
  have "js_mul (Fin (of_int n)) (Fin (of_int (n + 1))) = Fin (of_int (n * (n + 1)))"
    using mul by simp
  then show ?thesis
    unfolding sum_to_n_a_def add by (simp add: half dv del: of_int_mult of_int_add)
qed

lemma sum_to_n_b_loop_prefix:
  fixes n m i :: int
  assumes "1 \<le> i" and "i \<le> m + 1" and "m \<le> n" and "m * (m + 1) div 2 \<le> 2 ^ 53"
  shows "sum_to_n_b_loop (Fin (of_int n)) (Fin (of_int ((i - 1) * i div 2))) (Fin (of_int i)) =
         sum_to_n_b_loop (Fin (of_int n)) (Fin (of_int (m * (m + 1) div 2))) (Fin (of_int (m + 1)))"
  using assms
proof (induction "nat (m + 1 - i)" arbitrary: i)
  case 0
  then have "i = m + 1" by simp
  then show ?case by simp
next
  case (Suc d)
  then have im: "i \<le> m" by linarith
  have m0: "0 \<le> m" using Suc.prems im by linarith
  have le: "num_le (Fin (of_int i)) (Fin (of_int n))" using im Suc.prems by (simp add: num_le_int)
  have ti: "i * (i + 1) div 2 \<le> 2 ^ 53"
    using tri_mono [of i m] im Suc.prems by linarith
  have "\<bar>(i - 1) * i div 2 + i\<bar> \<le> 2 ^ 53"
    using ti tri_step [of i] tri_nonneg [of i] Suc.prems by simp
  then have acc: "js_add (Fin (of_int ((i - 1) * i div 2))) (Fin (of_int i)) = Fin (of_int (i * (i + 1) div 2))"
    using js_add_int [of "(i - 1) * i div 2" i] tri_step [of i] by simp
  have "\<bar>i + 1\<bar> \<le> 2 ^ 53"
    using tri_ge_succ [OF m0 Suc.prems(4)] im Suc.prems by linarith
  then have cnt: "js_add (Fin (of_int i)) (Fin 1) = Fin (of_int (i + 1))"
    using js_add_int [of i 1] by simp
  have IH: "sum_to_n_b_loop (Fin (of_int n)) (Fin (of_int ((i + 1 - 1) * (i + 1) div 2))) (Fin (of_int (i + 1))) =
         sum_to_n_b_loop (Fin (of_int n)) (Fin (of_int (m * (m + 1) div 2))) (Fin (of_int (m + 1)))"
    using Suc.hyps(2) Suc.prems im by (intro Suc.hyps(1)) simp_all
  have "sum_to_n_b_loop (Fin (of_int n)) (Fin (of_int ((i - 1) * i div 2))) (Fin (of_int i)) =
        sum_to_n_b_loop (Fin (of_int n)) (Fin (of_int (i * (i + 1) div 2))) (Fin (of_int (i + 1)))"
    by (subst sum_to_n_b_loop.simps) (simp only: le acc cnt if_True)
  also have "\<dots> = sum_to_n_b_loop (Fin (of_int n)) (Fin (of_int (m * (m + 1) div 2))) (Fin (of_int (m + 1)))"
    using IH by simp
  finally show ?case .
qed

lemma sum_to_n_b_exact:
  assumes n: "0 \<le> n" and t: "n * (n + 1) div 2 \<le> 2 ^ 53"
  shows "sum_to_n_b (Fin (of_int n)) = Some (Fin (of_int (n * (n + 1) div 2)))"
proof -
  have "sum_to_n_b (Fin (of_int n)) =
        sum_to_n_b_loop (Fin (of_int n)) (Fin (of_int ((1 - 1) * 1 div 2))) (Fin (of_int 1))"
    by (simp add: sum_to_n_b_def)
  also have "\<dots> = sum_to_n_b_loop (Fin (of_int n)) (Fin (of_int (n * (n + 1) div 2))) (Fin (of_int (n + 1)))"
    using n t by (intro sum_to_n_b_loop_prefix) simp_all
  also have "\<dots> = Some (Fin (of_int (n * (n + 1) div 2)))"
    by (subst sum_to_n_b_loop.simps) (simp add: num_le_int del: of_int_add)
  finally show ?thesis .
qed

lemma sum_to_n_c_exact:
  assumes n: "0 \<le> n" and t: "n * (n + 1) div 2 \<le> 2 ^ 53" and room: "n < int frames"
  shows "sum_to_n_c frames (Fin (of_int n)) = Inr (Fin (of_int (n * (n + 1) div 2)))"
  using assms
proof (induction frames arbitrary: n)
  case 0
  then show ?case by simp
next
  case (Suc frames)
  show ?case
  proof (cases "n = 0")
    case True
    then show ?thesis by (simp add: num_le_def)
  next
    case False
    with Suc.prems have pos: "0 < n" by simp
    have nle: "\<not> num_le (Fin (of_int n)) (Fin 0)"
      using pos num_le_int [of n 0] by simp
    have n1: "n + 1 \<le> 2 ^ 53" using tri_ge_succ [of n] Suc.prems by simp
    then have sub: "js_sub (Fin (of_int n)) (Fin 1) = Fin (of_int (n - 1))"
      using js_sub_int [of n 1] pos by simp
    have tm: "(n - 1) * (n - 1 + 1) div 2 \<le> 2 ^ 53"
      using tri_mono [of "n - 1" n] pos Suc.prems by linarith
    have "sum_to_n_c frames (Fin (of_int (n - 1))) = Inr (Fin (of_int ((n - 1) * (n - 1 + 1) div 2)))"
      using pos tm Suc.prems by (intro Suc.IH) simp_all
    then have IH: "sum_to_n_c frames (Fin (of_int (n - 1))) = Inr (Fin (of_int ((n - 1) * n div 2)))"
      by simp
    have "\<bar>n + (n - 1) * n div 2\<bar> \<le> 2 ^ 53"
      using tri_step [of n] Suc.prems tri_nonneg [of n] by (simp add: add.commute)
    then have add: "js_add (Fin (of_int n)) (Fin (of_int ((n - 1) * n div 2))) = Fin (of_int (n * (n + 1) div 2))"
      using js_add_int [of n "(n - 1) * n div 2"] tri_step [of n] by (simp add: add.commute)
    show ?thesis
      by (simp only: sum_to_n_c.simps nle sub if_False IH sum.case add)
  qed
qed

lemma sum_to_n_c_le_0: "num_le x (Fin 0) \<Longrightarrow> sum_to_n_c (Suc frames) x = Inr (Fin 0)"
  by simp

text \<open>
  When the stack has no room for \<open>n + 1\<close> nested calls, the recursion from an integer
  \<open>n\<close> between 0 and \<open>2^53\<close> ends in \<^verbatim>\<open>RangeError\<close>.
\<close>

lemma sum_to_n_c_overflow:
  assumes "0 \<le> n" and "n \<le> 2 ^ 53" and "int frames \<le> n"
  shows "sum_to_n_c frames (Fin (of_int n)) = Inl RangeError"
  using assms
proof (induction frames arbitrary: n)
  case 0
  then show ?case by simp
next
  case (Suc frames)
  then have pos: "0 < n" by simp
  have nle: "\<not> num_le (Fin (of_int n)) (Fin 0)"
    using pos num_le_int [of n 0] by simp
  have sub: "js_sub (Fin (of_int n)) (Fin 1) = Fin (of_int (n - 1))"
    using js_sub_int [of n 1] pos Suc.prems by simp
  have IH: "sum_to_n_c frames (Fin (of_int (n - 1))) = Inl RangeError"
    using Suc.prems by (intro Suc.IH) simp_all
  show ?case
    by (simp only: sum_to_n_c.simps nle sub if_False IH sum.case)
qed

section \<open>The three sums beyond the exactly representable values\<close>

lemmas js_eval = fl_def ilog2_def pow2_def round_half_even_def bitlen.simps Let_def
  num_le_def num_gt_def js_sub_def sign_of_def

lemma sum_to_n_a_134217730: "sum_to_n_a (Fin 134217730) = Fin 9007199590285316"
  by (simp add: sum_to_n_a_def js_eval)

lemma sum_to_n_b_134217730: "sum_to_n_b (Fin 134217730) = Some (Fin 9007199590285314)"
proof -
  have "sum_to_n_b (Fin 134217730) =
        sum_to_n_b_loop (Fin (of_int 134217730)) (Fin (of_int ((1 - 1) * 1 div 2))) (Fin (of_int 1))"
    by (simp add: sum_to_n_b_def)
  also have "\<dots> = sum_to_n_b_loop (Fin (of_int 134217730))
        (Fin (of_int (134217727 * (134217727 + 1) div 2))) (Fin (of_int (134217727 + 1)))"
    by (rule sum_to_n_b_loop_prefix) simp_all
  also have "\<dots> = Some (Fin 9007199590285314)"
    by (simp add: js_eval sum_to_n_b_loop.simps)
  finally show ?thesis .
qed

text \<open>
  From \<open>2^53 + 4\<close> the recursion does not descend, since \<^verbatim>\<open>n - 1\<close> is \<open>n\<close> again: it
  ends in \<^verbatim>\<open>RangeError\<close> whatever room the stack has.
\<close>

lemma sum_to_n_c_stuck: "sum_to_n_c frames (Fin 9007199254740996) = Inl RangeError"
proof (induction frames)
  case 0
  then show ?case by simp
next
  case (Suc frames)
  have sub: "js_sub (Fin 9007199254740996) (Fin 1) = Fin 9007199254740996"
    by (simp add: js_eval)
  have nle: "\<not> num_le (Fin 9007199254740996) (Fin 0)"
    by (simp add: num_le_def)
  show ?case
    by (simp only: sum_to_n_c.simps nle sub if_False Suc.IH sum.case)
qed

section \<open>The priority table\<close>

lemmas lookup_defs = getPriority_def js_get_def nullish_def BLOCKCHAIN_PRIORITIES_def
  DEFAULT_PRIORITY_def Object_prototype_def

lemma getPriority_configured:
  "getPriority ''Osmosis'' = Num (Fin 100)"
  "getPriority ''Ethereum'' = Num (Fin 50)"
  "getPriority ''Arbitrum'' = Num (Fin 30)"
  "getPriority ''Zilliqa'' = Num (Fin 20)"
  "getPriority ''Neo'' = Num (Fin 20)"
  by (simp_all add: lookup_defs)

lemma getPriority_unknown:
  assumes "chain \<notin> set Blockchain" and "chain \<notin> fst ` set Object_prototype"
  shows "getPriority chain = Num DEFAULT_PRIORITY"
proof -
  have "map_of Object_prototype chain = None"
    using assms(2) by (simp add: map_of_eq_None_iff)
  moreover have "BLOCKCHAIN_PRIORITIES chain = None"
    using assms(1) by (simp add: BLOCKCHAIN_PRIORITIES_def Blockchain_def)
  ultimately show ?thesis by (simp add: getPriority_def js_get_def nullish_def)
qed

lemma getPriority_inherited:
  assumes "chain \<in> fst ` set Object_prototype"
  shows "getPriority chain = ObjectPrototype \<or> (\<exists>name. getPriority chain = BuiltinFn name)"
  using assms by (auto simp add: lookup_defs)

lemma getPriority_range:
  "getPriority chain \<in> {Num (Fin 100), Num (Fin 50), Num (Fin 30), Num (Fin 20), Num (Fin (- 99)), ObjectPrototype}
   \<or> (\<exists>name. getPriority chain = BuiltinFn name)"
proof (cases "chain \<in> set Blockchain")
  case True
  then show ?thesis using getPriority_configured by (auto simp add: Blockchain_def)
next
  case False
  show ?thesis
  proof (cases "chain \<in> fst ` set Object_prototype")
    case True
    then show ?thesis using getPriority_inherited by blast
  next
    case False
    with \<open>chain \<notin> set Blockchain\<close> show ?thesis
      using getPriority_unknown by (simp add: DEFAULT_PRIORITY_def)
  qed
qed

lemma gt_sentinel_iff:
  "js_gt (getPriority chain) (Num DEFAULT_PRIORITY) \<longleftrightarrow> chain \<in> set Blockchain"
proof (cases "chain \<in> set Blockchain")
  case True
  then show ?thesis
    using getPriority_configured
    by (auto simp add: Blockchain_def js_gt_def num_gt_def DEFAULT_PRIORITY_def)
next
  case False
  show ?thesis
  proof (cases "chain \<in> fst ` set Object_prototype")
    case True
    then show ?thesis using getPriority_inherited [OF True] False
      by (auto simp add: js_gt_def num_gt_def DEFAULT_PRIORITY_def)
  next
    case False
    with \<open>chain \<notin> set Blockchain\<close> show ?thesis
      using getPriority_unknown by (simp add: js_gt_def num_gt_def DEFAULT_PRIORITY_def)
  qed
qed

lemma getPriority_numeric:
  assumes "getPriority chain = Num n"
  obtains i :: int where "n = Fin (of_int i)" and "- 99 \<le> i" and "i \<le> 100"
proof -
  from getPriority_range [of chain] assms
  have "n = Fin 100 \<or> n = Fin 50 \<or> n = Fin 30 \<or> n = Fin 20 \<or> n = Fin (- 99)" by auto
  then consider "n = Fin (of_int 100)" | "n = Fin (of_int 50)" | "n = Fin (of_int 30)"
    | "n = Fin (of_int 20)" | "n = Fin (of_int (- 99))" by auto
  then show thesis by cases (rule that, assumption, simp, simp)+
qed

lemma getPriority_kept:
  assumes "js_gt (getPriority chain) (Num DEFAULT_PRIORITY)"
  obtains i :: int where "getPriority chain = Num (Fin (of_int i))" and "20 \<le> i" and "i \<le> 100"
proof -
  from assms have "chain \<in> set Blockchain" by (simp add: gt_sentinel_iff)
  then consider "getPriority chain = Num (Fin (of_int 100))" | "getPriority chain = Num (Fin (of_int 50))"
    | "getPriority chain = Num (Fin (of_int 30))" | "getPriority chain = Num (Fin (of_int 20))"
    using getPriority_configured by (auto simp add: Blockchain_def)
  then show thesis by cases (rule that, assumption, simp, simp)+
qed

section \<open>The sort of the retained balances\<close>

lemma mset_sort_insert: "mset (sort_insert comparefn x ys) = add_mset x (mset ys)"
  by (induction ys) simp_all

lemma mset_Array_sort: "mset (Array_sort comparefn xs) = mset xs"
  by (induction xs) (simp_all add: Array_sort_def mset_sort_insert)

lemma set_Array_sort: "set (Array_sort comparefn xs) = set xs"
  using mset_Array_sort [of comparefn xs] by (metis set_mset_mset)

lemma sort_insert_insort_key:
  assumes "\<And>y. y \<in> set ys \<Longrightarrow> num_gt (SortCompare comparefn x y) (Fin 0) \<longleftrightarrow> f y < f x"
  shows "sort_insert comparefn x ys = insort_key f x ys"
  using assms by (induction ys) (auto simp add: not_le)

lemma Array_sort_sort_key:
  fixes f :: "'a \<Rightarrow> 'k::linorder"
  assumes "\<And>x y. x \<in> set xs \<Longrightarrow> y \<in> set xs \<Longrightarrow>
             num_gt (SortCompare comparefn x y) (Fin 0) \<longleftrightarrow> f y < f x"
  shows "Array_sort comparefn xs = sort_key f xs"
  using assms
proof (induction xs)
  case Nil
  then show ?case by (simp add: Array_sort_def)
next
  case (Cons x xs)
  have IH: "Array_sort comparefn xs = sort_key f xs"
    using Cons.prems by (intro Cons.IH) simp_all
  have "sort_insert comparefn x (sort_key f xs) = insort_key f x (sort_key f xs)"
    using Cons.prems by (intro sort_insert_insort_key) simp_all
  then show ?case using IH by (simp add: Array_sort_def)
qed

lemma js_minus_int:
  assumes "\<bar>i - j\<bar> \<le> 2 ^ 53"
  shows "js_minus (Num (Fin (of_int i))) (Num (Fin (of_int j))) = Fin (of_int (i - j))"
  using js_sub_int [OF assms] by (simp add: js_minus_def)

lemma js_gt_int: "js_gt (Num (Fin (of_int i))) (Num (Fin (of_int j))) \<longleftrightarrow> j < i"
  by (simp add: js_gt_def num_gt_def)

lemma small_diff: "- 99 \<le> i \<Longrightarrow> i \<le> 100 \<Longrightarrow> - 99 \<le> j \<Longrightarrow> j \<le> 100 \<Longrightarrow> \<bar>i - j\<bar> \<le> 2 ^ 53" for i j :: int
  by simp

lemma compare_numeric:
  assumes a: "getPriority (blockchain a) = Num (Fin (of_int i))" and i: "- 99 \<le> i" "i \<le> 100"
    and b: "getPriority (blockchain b) = Num (Fin (of_int j))" and j: "- 99 \<le> j" "j \<le> 100"
  shows "exam_compare a b = Fin (if j < i then - 1 else if i < j then 1 else 0)"
    and "refactored_compare a b = Fin (of_int (j - i))"
    and "sortByPriorityDesc a b = Fin (of_int (j - i))"
    and "rank a = - of_int i" and "rank b = - of_int j"
proof -
  have d: "\<bar>j - i\<bar> \<le> 2 ^ 53" using i j by (intro small_diff)
  show "exam_compare a b = Fin (if j < i then - 1 else if i < j then 1 else 0)"
    by (simp add: exam_compare_def a b js_gt_int)
  show "refactored_compare a b = Fin (of_int (j - i))"
    unfolding refactored_compare_def Let_def a b by (rule js_minus_int [OF d])
  show "sortByPriorityDesc a b = Fin (of_int (j - i))"
    unfolding sortByPriorityDesc_def a b by (rule js_minus_int [OF d])
  show "rank a = - of_int i" by (simp add: rank_def a)
  show "rank b = - of_int j" by (simp add: rank_def b)
qed

lemma compare_rank:
  assumes "getPriority (blockchain a) = Num n" and "getPriority (blockchain b) = Num m"
  shows "num_gt (SortCompare exam_compare a b) (Fin 0) \<longleftrightarrow> rank b < rank a"
    and "num_gt (SortCompare refactored_compare a b) (Fin 0) \<longleftrightarrow> rank b < rank a"
    and "num_gt (SortCompare sortByPriorityDesc a b) (Fin 0) \<longleftrightarrow> rank b < rank a"
proof -
  from assms(1) obtain i :: int where i: "n = Fin (of_int i)" "- 99 \<le> i" "i \<le> 100"
    by (rule getPriority_numeric)
  from assms(2) obtain j :: int where j: "m = Fin (of_int j)" "- 99 \<le> j" "j \<le> 100"
    by (rule getPriority_numeric)
  note c = compare_numeric [OF assms(1) [unfolded i(1)] i(2,3) assms(2) [unfolded j(1)] j(2,3)]
  show "num_gt (SortCompare exam_compare a b) (Fin 0) \<longleftrightarrow> rank b < rank a"
    by (simp add: c SortCompare_def num_gt_def)
  show "num_gt (SortCompare refactored_compare a b) (Fin 0) \<longleftrightarrow> rank b < rank a"
    by (simp add: c SortCompare_def num_gt_def)
  show "num_gt (SortCompare sortByPriorityDesc a b) (Fin 0) \<longleftrightarrow> rank b < rank a"
    by (simp add: c SortCompare_def num_gt_def)
qed

lemma keep_balance_numeric:
  assumes "keep_balance b"
  obtains i :: int where "getPriority (blockchain b) = Num (Fin (of_int i))" and "20 \<le> i" and "i \<le> 100"
  using assms getPriority_kept [of "blockchain b"] by (auto simp add: keep_balance_def)

lemma sort_kept:
  assumes "\<And>x. x \<in> set xs \<Longrightarrow> keep_balance x"
  shows "Array_sort exam_compare xs = sort_key rank xs"
    and "Array_sort refactored_compare xs = sort_key rank xs"
    and "Array_sort sortByPriorityDesc xs = sort_key rank xs"
proof -
  have num: "\<exists>n. getPriority (blockchain x) = Num n" if "x \<in> set xs" for x
    using assms [OF that] by (elim keep_balance_numeric) blast
  have cr:
    "num_gt (SortCompare exam_compare x y) (Fin 0) \<longleftrightarrow> rank y < rank x"
    "num_gt (SortCompare refactored_compare x y) (Fin 0) \<longleftrightarrow> rank y < rank x"
    "num_gt (SortCompare sortByPriorityDesc x y) (Fin 0) \<longleftrightarrow> rank y < rank x"
    if "x \<in> set xs" and "y \<in> set xs" for x y
  proof -
    from that num obtain n m where
      "getPriority (blockchain x) = Num n" and "getPriority (blockchain y) = Num m" by blast
    note c = compare_rank [OF this]
    show "num_gt (SortCompare exam_compare x y) (Fin 0) \<longleftrightarrow> rank y < rank x" by (rule c)
    show "num_gt (SortCompare refactored_compare x y) (Fin 0) \<longleftrightarrow> rank y < rank x" by (rule c)
    show "num_gt (SortCompare sortByPriorityDesc x y) (Fin 0) \<longleftrightarrow> rank y < rank x" by (rule c)
  qed
  show "Array_sort exam_compare xs = sort_key rank xs"
    by (rule Array_sort_sort_key) (rule cr)
  show "Array_sort refactored_compare xs = sort_key rank xs"
    by (rule Array_sort_sort_key) (rule cr)
  show "Array_sort sortByPriorityDesc xs = sort_key rank xs"
    by (rule Array_sort_sort_key) (rule cr)
qed

lemma balance_of_formatted [simp]:
  "balance_of \<lparr>currency = currency b, amount = amount b, blockchain = blockchain b,
     formatted = s, usdValue = u\<rparr> = b" for b :: WalletBalance
  by (simp add: balance_of_def)

lemma blockchain_balance_of [simp]: "blockchain (balance_of r) = blockchain r"
  by (simp add: balance_of_def)

lemma amount_balance_of [simp]: "amount (balance_of r) = amount r"
  by (simp add: balance_of_def)

lemma exam_sorted_eq: "exam_sortedBalances balances = sort_key rank (filter keep_balance balances)"
  unfolding exam_sortedBalances_def by (rule sort_kept) simp

lemma refactored_balances:
  "map balance_of (refactored_formattedBalances N balances prices) = sort_key rank (filter keep_balance balances)"
proof -
  have "map balance_of (refactored_formattedBalances N balances prices) =
        Array_sort refactored_compare (filter keep_balance balances)"
    by (simp add: refactored_formattedBalances_def comp_def)
  also have "\<dots> = sort_key rank (filter keep_balance balances)"
    by (rule sort_kept) simp
  finally show ?thesis .
qed

lemma optimal_balances:
  "map balance_of (optimal_formattedBalances N balances prices) = sort_key rank (filter keep_balance balances)"
proof -
  have "map balance_of (optimal_formattedBalances N balances prices) =
        Array_sort sortByPriorityDesc (filter keep_balance balances)"
    by (simp add: optimal_formattedBalances_def comp_def)
  also have "\<dots> = sort_key rank (filter keep_balance balances)"
    by (rule sort_kept) simp
  finally show ?thesis .
qed

section \<open>Properties of the filter, the sort and the formatting\<close>

lemma keep_balance_iff:
  "keep_balance b \<longleftrightarrow>
     blockchain b \<in> set Blockchain \<and> (amount b = PosInf \<or> (\<exists>x. amount b = Fin x \<and> 0 < x))"
  by (cases "amount b") (simp_all add: keep_balance_def gt_sentinel_iff num_gt_def)

lemma kept_sorted_descending:
  assumes ys: "ys = sort_key rank (filter keep_balance balances)" and i: "Suc i < length ys"
  shows "\<exists>p q. getPriority (blockchain (ys ! i)) = Num (Fin p) \<and>
               getPriority (blockchain (ys ! Suc i)) = Num (Fin q) \<and> q \<le> p"
proof -
  have mem: "ys ! i \<in> set ys" "ys ! Suc i \<in> set ys" using i by simp_all
  have kept: "keep_balance x" if "x \<in> set ys" for x using that ys by simp
  from kept [OF mem(1)] obtain a :: int where a: "getPriority (blockchain (ys ! i)) = Num (Fin (of_int a))"
    by (rule keep_balance_numeric)
  from kept [OF mem(2)] obtain b :: int where b: "getPriority (blockchain (ys ! Suc i)) = Num (Fin (of_int b))"
    by (rule keep_balance_numeric)
  have "sorted (map rank ys)" unfolding ys by (rule sorted_sort_key)
  then have "map rank ys ! i \<le> map rank ys ! Suc i"
    using i by (intro sorted_nth_mono) simp_all
  then have "rank (ys ! i) \<le> rank (ys ! Suc i)" using i by simp
  then have "(of_int b :: rat) \<le> of_int a" by (simp add: rank_def a b)
  with a b show ?thesis by blast
qed

lemma formatted_descending:
  assumes out: "map balance_of out = sort_key rank (filter keep_balance balances)"
    and i: "Suc i < length out"
  shows "\<exists>p q. getPriority (blockchain (out ! i)) = Num (Fin p) \<and>
               getPriority (blockchain (out ! Suc i)) = Num (Fin q) \<and> q \<le> p"
proof -
  have "Suc i < length (map balance_of out)" using i by simp
  from kept_sorted_descending [OF out this] show ?thesis using i by simp
qed

lemma js_gt_irrefl: "\<not> js_gt v v"
  by (cases v) (simp_all add: js_gt_def num_gt_def, case_tac x2, simp_all)

lemma js_minus_self: "js_minus v v = Fin 0 \<or> js_minus v v = NaN"
proof (cases v)
  case (Num n)
  then show ?thesis by (cases n) (simp_all add: js_minus_def js_sub_def fl_def)
qed (simp_all add: js_minus_def js_sub_def)

lemma filter_sort_key_eq:
  assumes "\<And>y. P y \<Longrightarrow> f y = k"
  shows "filter P (sort_key f xs) = filter P xs"
proof -
  have "filter P zs = filter P (filter (\<lambda>y. f y = k) zs)" for zs
    using assms by (simp add: conj_commute) (metis (mono_tags, lifting) filter_cong)
  then have "filter P (sort_key f xs) = filter P (filter (\<lambda>y. f y = k) (sort_key f xs))" by blast
  also have "\<dots> = filter P (filter (\<lambda>y. f y = k) xs)" by (simp only: sort_key_stable)
  also have "\<dots> = filter P xs"
    using assms by (simp add: conj_commute) (metis (mono_tags, lifting) filter_cong)
  finally show ?thesis .
qed

lemma same_priority_stable:
  "filter (\<lambda>x. getPriority (blockchain x) = v) (sort_key rank xs) =
   filter (\<lambda>x. getPriority (blockchain x) = v) xs"
  by (rule filter_sort_key_eq [where k = "case v of Num (Fin p) \<Rightarrow> - p | _ \<Rightarrow> 0"])
    (simp add: rank_def)

lemma sentinel_lowest:
  "BLOCKCHAIN_PRIORITIES chain = Some n \<Longrightarrow> num_lt DEFAULT_PRIORITY n"
  by (auto simp add: BLOCKCHAIN_PRIORITIES_def DEFAULT_PRIORITY_def split: if_splits)

lemma kept_in_sorted:
  assumes "b \<in> set balances" and "keep_balance b"
  shows "b \<in> set (Array_sort comparefn (filter keep_balance balances))"
  using assms by (simp add: set_Array_sort)

lemma sorted_is_kept:
  assumes "b \<in> set (Array_sort comparefn (filter keep_balance balances))"
  shows "keep_balance b"
  using assms by (simp add: set_Array_sort)

lemma keep_balance_amount: "keep_balance b \<Longrightarrow> amount b \<noteq> NaN \<and> amount b \<noteq> NegInf"
  by (auto simp add: keep_balance_def num_gt_def)

text \<open>
  The sort is determined on retained balances: any arrangement of them that is in
  descending order of priority and keeps the order within each priority is the list
  the model of the sort computes, whichever of the three comparators is used.
\<close>

lemma sort_of_kept_determined:
  assumes kept: "\<And>x. x \<in> set xs \<Longrightarrow> keep_balance x"
    and perm: "mset ys = mset xs"
    and desc: "sorted (map rank ys)"
    and stable: "\<And>k. filter (\<lambda>x. rank x = k) ys = filter (\<lambda>x. rank x = k) xs"
  shows "ys = Array_sort exam_compare xs"
    and "ys = Array_sort refactored_compare xs"
    and "ys = Array_sort sortByPriorityDesc xs"
proof -
  have "sort_key rank xs = ys"
    using perm _ desc
  proof (rule properties_for_sort_key)
    fix k assume "k \<in> set ys"
    have "filter (\<lambda>x. rank x = rank k) ys = filter (\<lambda>x. rank x = rank k) xs" by (rule stable)
    then show "filter (\<lambda>x. rank k = rank x) ys = filter (\<lambda>x. rank k = rank x) xs"
      by (simp add: eq_commute)
  qed
  then show "ys = Array_sort exam_compare xs"
    and "ys = Array_sort refactored_compare xs"
    and "ys = Array_sort sortByPriorityDesc xs"
    using sort_kept [of xs] kept by simp_all
qed

lemma decimal_digits: "set (decimal n) \<subseteq> set ''0123456789''"
proof (induction n rule: decimal.induct)
  case (1 n)
  have d: "''0123456789'' ! k \<in> set ''0123456789''" if "k < 10" for k
    using that by (intro nth_mem) simp
  show ?case
  proof (cases "n < 10")
    case True
    then have "nat n < 10" by simp
    then show ?thesis using d [of "nat n"] True by (subst decimal.simps) simp
  next
    case False
    have "nat (n mod 10) < 10" by simp
    then have "''0123456789'' ! nat (n mod 10) \<in> set ''0123456789''" by (rule d)
    then show ?thesis using False 1 by (subst decimal.simps) simp
  qed
qed

text \<open>
  Below \<open>10^21\<close> the result of \<^verbatim>\<open>toFixed(2)\<close> ends in a point and exactly two digits.
\<close>

lemma toFixed_2_shape:
  assumes "\<bar>r\<bar> < 10 ^ 21"
  shows "\<exists>i f. toFixed N 2 (Fin r) = i @ ''.'' @ f \<and> length f = 2 \<and> set f \<subseteq> set ''0123456789''"
proof -
  define m where "m = decimal \<lfloor>\<bar>r\<bar> * 10 ^ 2 + 1 / 2\<rfloor>"
  define z where "z = replicate (2 + 1 - length m) CHR ''0'' @ m"
  define s where "s = (if r < 0 then ''-'' else [])"
  have len: "3 \<le> length z" by (simp add: z_def)
  have digits: "set z \<subseteq> set ''0123456789''"
    using decimal_digits [of "\<lfloor>\<bar>r\<bar> * 10 ^ 2 + 1 / 2\<rfloor>"]
    unfolding z_def m_def by (auto split: if_splits)
  have "toFixed N 2 (Fin r) = (s @ take (length z - 2) z) @ ''.'' @ drop (length z - 2) z"
    using assms by (simp add: toFixed_def Let_def s_def z_def m_def not_le [symmetric])
  moreover have "length (drop (length z - 2) z) = 2" using len by simp
  moreover have "set (drop (length z - 2) z) \<subseteq> set ''0123456789''"
    using digits set_drop_subset [of "length z - 2" z] by blast
  ultimately show ?thesis by blast
qed

text \<open>The rows of the exam follow its sorted balances, one row for each, in order.\<close>

lemma exam_rows_of_sorted:
  "map row_key (exam_rows N balances prices) =
     map (\<lambda>b. blockchain b @ ''-'' @ currency b) (exam_sortedBalances balances)"
  "map row_amount (exam_rows N balances prices) = map amount (exam_sortedBalances balances)"
  by (simp_all add: exam_rows_def comp_def)

text \<open>
  The optimal component substitutes 0 for a missing price: a finite amount of a
  currency that is no key of the price table, and no property name of
  \<^verbatim>\<open>Object.prototype\<close> either, has the usdValue 0.
\<close>

lemma optimal_usdValue:
  assumes "r \<in> set (optimal_formattedBalances N balances prices)"
  shows "usdValue r = js_times (nullish (js_get prices (currency r)) (Num (Fin 0))) (Num (amount r))"
  using assms by (auto simp add: optimal_formattedBalances_def)

lemma optimal_usdValue_missing:
  assumes "r \<in> set (optimal_formattedBalances N balances prices)"
    and "prices (currency r) = None" and "currency r \<notin> fst ` set Object_prototype"
    and "amount r = Fin x"
  shows "usdValue r = Fin 0"
proof -
  have "map_of Object_prototype (currency r) = None"
    using assms(3) by (simp add: map_of_eq_None_iff)
  then have "js_get prices (currency r) = Undefined"
    using assms(2) by (simp add: js_get_def)
  then show ?thesis
    using optimal_usdValue [OF assms(1)] assms(4) by (simp add: nullish_def js_times_def fl_def)
qed

text \<open>
  The comparators on two balances of one priority: the three-way comparator returns 0,
  the sort reads the subtraction as 0, and the subtraction itself is 0 when the priority
  is a finite number.
\<close>

lemma equal_priority_compare:
  assumes "getPriority (blockchain a) = getPriority (blockchain b)"
  shows "exam_compare a b = Fin 0"
    and "SortCompare refactored_compare a b = Fin 0"
    and "SortCompare sortByPriorityDesc a b = Fin 0"
  using assms js_minus_self [of "getPriority (blockchain b)"]
  by (auto simp add: exam_compare_def refactored_compare_def sortByPriorityDesc_def
      SortCompare_def js_gt_irrefl)

lemma equal_numeric_priority_compare:
  assumes "getPriority (blockchain a) = Num (Fin p)" and "getPriority (blockchain b) = Num (Fin p)"
  shows "refactored_compare a b = Fin 0" and "sortByPriorityDesc a b = Fin 0"
  using assms
  by (simp_all add: refactored_compare_def sortByPriorityDesc_def js_minus_def js_sub_def fl_def)

text \<open>
  In the output of each component the balances of any one priority keep the order they
  have in the filtered list.
\<close>

lemma sort_stages_stable:
  "filter (\<lambda>x. getPriority (blockchain x) = v) (exam_sortedBalances balances) =
     filter (\<lambda>x. getPriority (blockchain x) = v) (filter keep_balance balances)"
  "filter (\<lambda>x. getPriority (blockchain x) = v) (map balance_of (refactored_formattedBalances N balances prices)) =
     filter (\<lambda>x. getPriority (blockchain x) = v) (filter keep_balance balances)"
  "filter (\<lambda>x. getPriority (blockchain x) = v) (map balance_of (optimal_formattedBalances N balances prices)) =
     filter (\<lambda>x. getPriority (blockchain x) = v) (filter keep_balance balances)"
  by (simp_all add: exam_sorted_eq refactored_balances optimal_balances same_priority_stable)

text \<open>
  The two subtraction comparators are one function. The three-way comparator has the
  sign of the subtraction whenever one of the two priorities is a number, and whenever
  the two priorities are equal.
\<close>

lemma subtraction_comparators_equal: "refactored_compare = sortByPriorityDesc"
  by (intro ext) (simp add: refactored_compare_def sortByPriorityDesc_def)

lemma num_gt_NaN: "\<not> num_gt n NaN" "\<not> num_gt NaN n"
  by (cases n; simp add: num_gt_def)+

lemma js_sub_NaN: "js_sub n NaN = NaN" "js_sub NaN n = NaN"
  by (cases n; simp add: js_sub_def)+

lemma compare_number_other:
  assumes "\<forall>m. w \<noteq> Num m"
  shows "\<not> js_gt (Num n) w" and "\<not> js_gt w (Num n)"
    and "js_minus (Num n) w = NaN" and "js_minus w (Num n) = NaN"
  using assms
  by (cases w; simp add: js_gt_def js_minus_def num_gt_NaN js_sub_NaN)+

lemma comparators_sign_agree:
  assumes "(\<exists>n. getPriority (blockchain a) = Num n) \<or> (\<exists>m. getPriority (blockchain b) = Num m)
           \<or> getPriority (blockchain a) = getPriority (blockchain b)"
  shows "sign_of (exam_compare a b) = sign_of (refactored_compare a b)"
proof -
  consider (both) n m where "getPriority (blockchain a) = Num n" "getPriority (blockchain b) = Num m"
    | (left) n where "getPriority (blockchain a) = Num n" "\<forall>m. getPriority (blockchain b) \<noteq> Num m"
    | (right) m where "getPriority (blockchain b) = Num m" "\<forall>n. getPriority (blockchain a) \<noteq> Num n"
    | (same) "getPriority (blockchain a) = getPriority (blockchain b)"
    using assms by blast
  then show ?thesis
  proof cases
    case both
    from both(1) obtain i :: int where i: "n = Fin (of_int i)" "- 99 \<le> i" "i \<le> 100"
      by (rule getPriority_numeric)
    from both(2) obtain j :: int where j: "m = Fin (of_int j)" "- 99 \<le> j" "j \<le> 100"
      by (rule getPriority_numeric)
    note c = compare_numeric [OF both(1) [unfolded i(1)] i(2,3) both(2) [unfolded j(1)] j(2,3)]
    show ?thesis by (simp add: c sign_of_def)
  next
    case left
    then show ?thesis
      by (simp add: exam_compare_def refactored_compare_def compare_number_other sign_of_def)
  next
    case right
    then show ?thesis
      by (simp add: exam_compare_def refactored_compare_def compare_number_other sign_of_def)
  next
    case same
    then show ?thesis
      using js_minus_self [of "getPriority (blockchain b)"]
      by (auto simp add: exam_compare_def refactored_compare_def js_gt_irrefl sign_of_def)
  qed
qed

text \<open>On every input list the sort stages of the three components produce one list.\<close>

lemma sort_stages_equal:
  "exam_sortedBalances balances = map balance_of (refactored_formattedBalances N balances prices)"
  "exam_sortedBalances balances = map balance_of (optimal_formattedBalances N balances prices)"
  by (simp_all add: exam_sorted_eq refactored_balances optimal_balances)

section \<open>The pipeline on the scenario\<close>

lemmas wallet_eval = lookup_defs js_gt_def js_minus_def js_times_def keep_balance_def
  exam_compare_def refactored_compare_def sortByPriorityDesc_def exam_sortedBalances_def
  exam_rows_def refactored_formattedBalances_def optimal_formattedBalances_def Array_sort_def
  SortCompare_def toFixed_def decimal.simps scenario_balances_def

lemma scenario_sorted:
  "exam_sortedBalances scenario_balances =
     [\<lparr>currency = ''ETH'', amount = Fin 10, blockchain = ''Ethereum''\<rparr>,
      \<lparr>currency = ''ARB'', amount = Fin 20, blockchain = ''Arbitrum''\<rparr>,
      \<lparr>currency = ''NEO'', amount = Fin 15, blockchain = ''Neo''\<rparr>]"
  by (simp add: wallet_eval js_eval)

lemma scenario_kept:
  "filter keep_balance scenario_balances =
     [\<lparr>currency = ''ETH'', amount = Fin 10, blockchain = ''Ethereum''\<rparr>,
      \<lparr>currency = ''ARB'', amount = Fin 20, blockchain = ''Arbitrum''\<rparr>,
      \<lparr>currency = ''NEO'', amount = Fin 15, blockchain = ''Neo''\<rparr>]"
  by (simp add: wallet_eval js_eval)

lemma scenario_refactored:
  "refactored_formattedBalances N scenario_balances Map.empty =
     [\<lparr>currency = ''ETH'', amount = Fin 10, blockchain = ''Ethereum'', formatted = ''10.00'', usdValue = NaN\<rparr>,
      \<lparr>currency = ''ARB'', amount = Fin 20, blockchain = ''Arbitrum'', formatted = ''20.00'', usdValue = NaN\<rparr>,
      \<lparr>currency = ''NEO'', amount = Fin 15, blockchain = ''Neo'', formatted = ''15.00'', usdValue = NaN\<rparr>]"
  by (simp add: wallet_eval js_eval)

lemma scenario_optimal:
  "optimal_formattedBalances N scenario_balances Map.empty =
     [\<lparr>currency = ''ETH'', amount = Fin 10, blockchain = ''Ethereum'', formatted = ''10.00'', usdValue = Fin 0\<rparr>,
      \<lparr>currency = ''ARB'', amount = Fin 20, blockchain = ''Arbitrum'', formatted = ''20.00'', usdValue = Fin 0\<rparr>,
      \<lparr>currency = ''NEO'', amount = Fin 15, blockchain = ''Neo'', formatted = ''15.00'', usdValue = Fin 0\<rparr>]"
  by (simp add: wallet_eval js_eval)

lemma scenario_optimal_priced:
  "optimal_formattedBalances N scenario_balances [''ETH'' \<mapsto> Fin 2000, ''NEO'' \<mapsto> Fin 15] =
     [\<lparr>currency = ''ETH'', amount = Fin 10, blockchain = ''Ethereum'', formatted = ''10.00'', usdValue = Fin 20000\<rparr>,
      \<lparr>currency = ''ARB'', amount = Fin 20, blockchain = ''Arbitrum'', formatted = ''20.00'', usdValue = Fin 0\<rparr>,
      \<lparr>currency = ''NEO'', amount = Fin 15, blockchain = ''Neo'', formatted = ''15.00'', usdValue = Fin 225\<rparr>]"
  by (simp add: wallet_eval js_eval)

lemma scenario_rows:
  "exam_rows N scenario_balances Map.empty =
     [\<lparr>row_className = ''wallet-row'', row_key = ''Ethereum-ETH'', row_amount = Fin 10, row_usdValue = NaN, row_formattedAmount = ''10''\<rparr>,
      \<lparr>row_className = ''wallet-row'', row_key = ''Arbitrum-ARB'', row_amount = Fin 20, row_usdValue = NaN, row_formattedAmount = ''20''\<rparr>,
      \<lparr>row_className = ''wallet-row'', row_key = ''Neo-NEO'', row_amount = Fin 15, row_usdValue = NaN, row_formattedAmount = ''15''\<rparr>]"
  by (simp add: wallet_eval js_eval)

section \<open>Claims\<close>

text \<open>
  C1. The usdValue of a formatted balance is meant to be the amount times the price,
  with 0 in place of a missing price, and never \<^verbatim>\<open>NaN\<close>. The optimal component does
  substitute 0 (\<open>scenario_optimal\<close>); the refactored component multiplies with the
  missing price itself, and so do the rows of the exam: for the balance of 10 \<^verbatim>\<open>ETH\<close> on
  Ethereum and an empty price table the usdValue is \<^verbatim>\<open>NaN\<close>.
\<close>

theorem refactored_usdValue_missing_price:
  "refactored_formattedBalances N
     [\<lparr>currency = ''ETH'', amount = Fin 10, blockchain = ''Ethereum''\<rparr>] Map.empty =
     [\<lparr>currency = ''ETH'', amount = Fin 10, blockchain = ''Ethereum'',
       formatted = ''10.00'', usdValue = NaN\<rparr>] \<and>
   map row_usdValue (exam_rows N
     [\<lparr>currency = ''ETH'', amount = Fin 10, blockchain = ''Ethereum''\<rparr>] Map.empty) = [NaN] \<and>
   map usdValue (optimal_formattedBalances N
     [\<lparr>currency = ''ETH'', amount = Fin 10, blockchain = ''Ethereum''\<rparr>] Map.empty) = [Fin 0]"
  by (simp add: wallet_eval js_eval)

text \<open>
  C2. The balances the filter and the sort produce, and their order, do not depend on
  the price table: for any two price tables the formatted balances of the refactored
  and of the optimal component extend the same sequence of balances, and the rows of the
  exam have the same keys, amounts and formatted amounts.
\<close>

theorem prices_do_not_influence_order:
  "map balance_of (refactored_formattedBalances N balances prices1) =
     map balance_of (refactored_formattedBalances N balances prices2) \<and>
   map balance_of (optimal_formattedBalances N balances prices1) =
     map balance_of (optimal_formattedBalances N balances prices2) \<and>
   map (\<lambda>r. (row_key r, row_amount r, row_formattedAmount r)) (exam_rows N balances prices1) =
     map (\<lambda>r. (row_key r, row_amount r, row_formattedAmount r)) (exam_rows N balances prices2)"
  by (simp add: refactored_balances optimal_balances exam_rows_def comp_def)

text \<open>
  C3. The filter retains exactly the balances whose chain priority is greater than the
  sentinel and whose amount is greater than 0: in each component the balances of the
  output are, as a multiset, those balances of the input, and every row of the output
  has such a chain and such an amount. No input is an error: the pipeline is a total
  function. The chains of priority above the sentinel are the five configured ones.
\<close>

theorem filter_retains_exactly:
  "mset (exam_sortedBalances balances) =
     filter_mset (\<lambda>b. js_gt (getPriority (blockchain b)) (Num DEFAULT_PRIORITY) \<and> num_gt (amount b) (Fin 0))
       (mset balances) \<and>
   mset (map balance_of (refactored_formattedBalances N balances prices)) =
     filter_mset (\<lambda>b. js_gt (getPriority (blockchain b)) (Num DEFAULT_PRIORITY) \<and> num_gt (amount b) (Fin 0))
       (mset balances) \<and>
   mset (map balance_of (optimal_formattedBalances N balances prices)) =
     filter_mset (\<lambda>b. js_gt (getPriority (blockchain b)) (Num DEFAULT_PRIORITY) \<and> num_gt (amount b) (Fin 0))
       (mset balances) \<and>
   (\<forall>r \<in> set (exam_sortedBalances balances).
      js_gt (getPriority (blockchain r)) (Num DEFAULT_PRIORITY) \<and> num_gt (amount r) (Fin 0)) \<and>
   (\<forall>r \<in> set (refactored_formattedBalances N balances prices).
      js_gt (getPriority (blockchain r)) (Num DEFAULT_PRIORITY) \<and> num_gt (amount r) (Fin 0)) \<and>
   (\<forall>r \<in> set (optimal_formattedBalances N balances prices).
      js_gt (getPriority (blockchain r)) (Num DEFAULT_PRIORITY) \<and> num_gt (amount r) (Fin 0)) \<and>
   (\<forall>chain. js_gt (getPriority chain) (Num DEFAULT_PRIORITY) \<longleftrightarrow> chain \<in> set Blockchain)"
proof -
  let ?P = "\<lambda>b. js_gt (getPriority (blockchain b)) (Num DEFAULT_PRIORITY) \<and> num_gt (amount b) (Fin 0)"
  have P: "keep_balance = ?P" by (rule ext) (simp add: keep_balance_def)
  have m: "mset (sort_key rank (filter keep_balance balances)) = filter_mset ?P (mset balances)"
    by (simp add: P)
  have s: "?P r" if "r \<in> set (sort_key rank (filter keep_balance balances))" for r
    using that by (simp add: keep_balance_def)
  have f: "?P r" if "map balance_of out = sort_key rank (filter keep_balance balances)"
    and "r \<in> set out" for out and r :: FormattedWalletBalance
  proof -
    have "balance_of r \<in> set (map balance_of out)" using that(2) by simp
    then have "balance_of r \<in> set (sort_key rank (filter keep_balance balances))"
      by (simp only: that(1))
    then have "?P (balance_of r)" by (rule s)
    then show ?thesis by simp
  qed
  show ?thesis
    using m s f [OF refactored_balances] f [OF optimal_balances]
    by (simp add: exam_sorted_eq refactored_balances optimal_balances gt_sentinel_iff)
qed

theorem filter_retains_exactly_witness:
  "\<lparr>currency = ''ARB'', amount = Fin 20, blockchain = ''Arbitrum''\<rparr> \<in> set (exam_sortedBalances scenario_balances) \<and>
   js_gt (getPriority ''Arbitrum'') (Num DEFAULT_PRIORITY) \<and> num_gt (Fin 20) (Fin 0) \<and>
   \<lparr>currency = ''ARB'', amount = Fin 20, blockchain = ''Arbitrum'', formatted = ''20.00'', usdValue = NaN\<rparr>
     \<in> set (refactored_formattedBalances (\<lambda>x. []) scenario_balances Map.empty) \<and>
   \<lparr>currency = ''ARB'', amount = Fin 20, blockchain = ''Arbitrum'', formatted = ''20.00'', usdValue = Fin 0\<rparr>
     \<in> set (optimal_formattedBalances (\<lambda>x. []) scenario_balances Map.empty)"
proof -
  have 1: "\<lparr>currency = ''ARB'', amount = Fin 20, blockchain = ''Arbitrum''\<rparr> \<in> set (exam_sortedBalances scenario_balances)"
    by (simp add: scenario_sorted)
  have 2: "\<lparr>currency = ''ARB'', amount = Fin 20, blockchain = ''Arbitrum'', formatted = ''20.00'', usdValue = NaN\<rparr>
     \<in> set (refactored_formattedBalances (\<lambda>x. []) scenario_balances Map.empty)"
    by (simp add: scenario_refactored)
  have 3: "\<lparr>currency = ''ARB'', amount = Fin 20, blockchain = ''Arbitrum'', formatted = ''20.00'', usdValue = Fin 0\<rparr>
     \<in> set (optimal_formattedBalances (\<lambda>x. []) scenario_balances Map.empty)"
    by (simp add: scenario_optimal)
  note t = filter_retains_exactly [of scenario_balances "\<lambda>x. []" Map.empty]
  from t have "\<forall>r \<in> set (exam_sortedBalances scenario_balances).
      js_gt (getPriority (blockchain r)) (Num DEFAULT_PRIORITY) \<and> num_gt (amount r) (Fin 0)"
    by blast
  from bspec [OF this 1]
  have a: "js_gt (getPriority ''Arbitrum'') (Num DEFAULT_PRIORITY) \<and> num_gt (Fin 20) (Fin 0)"
    by simp
  from t have "\<forall>r \<in> set (refactored_formattedBalances (\<lambda>x. []) scenario_balances Map.empty).
      js_gt (getPriority (blockchain r)) (Num DEFAULT_PRIORITY) \<and> num_gt (amount r) (Fin 0)"
    by blast
  from bspec [OF this 2]
  have b: "js_gt (getPriority ''Arbitrum'') (Num DEFAULT_PRIORITY) \<and> num_gt (Fin 20) (Fin 0)"
    by simp
  from t have "\<forall>r \<in> set (optimal_formattedBalances (\<lambda>x. []) scenario_balances Map.empty).
      js_gt (getPriority (blockchain r)) (Num DEFAULT_PRIORITY) \<and> num_gt (amount r) (Fin 0)"
    by blast
  from bspec [OF this 3]
  have c: "js_gt (getPriority ''Arbitrum'') (Num DEFAULT_PRIORITY) \<and> num_gt (Fin 20) (Fin 0)"
    by simp
  from 1 2 3 a b c show ?thesis by blast
qed

text \<open>
  C4. In the output of the pipeline, in each of the three components, every adjacent
  pair is in descending order of chain priority: both priorities are numbers, and the
  one of the later row is not greater.
\<close>

theorem output_priority_descending:
  "(\<forall>i. Suc i < length (exam_sortedBalances balances) \<longrightarrow>
      (\<exists>p q. getPriority (blockchain (exam_sortedBalances balances ! i)) = Num (Fin p) \<and>
             getPriority (blockchain (exam_sortedBalances balances ! Suc i)) = Num (Fin q) \<and> q \<le> p)) \<and>
   (\<forall>i. Suc i < length (refactored_formattedBalances N balances prices) \<longrightarrow>
      (\<exists>p q. getPriority (blockchain (refactored_formattedBalances N balances prices ! i)) = Num (Fin p) \<and>
             getPriority (blockchain (refactored_formattedBalances N balances prices ! Suc i)) = Num (Fin q) \<and> q \<le> p)) \<and>
   (\<forall>i. Suc i < length (optimal_formattedBalances N balances prices) \<longrightarrow>
      (\<exists>p q. getPriority (blockchain (optimal_formattedBalances N balances prices ! i)) = Num (Fin p) \<and>
             getPriority (blockchain (optimal_formattedBalances N balances prices ! Suc i)) = Num (Fin q) \<and> q \<le> p))"
  using kept_sorted_descending [OF exam_sorted_eq]
    formatted_descending [OF refactored_balances] formatted_descending [OF optimal_balances]
  by blast

theorem output_priority_descending_witness:
  "Suc 0 < length (exam_sortedBalances scenario_balances) \<and>
   (\<exists>p q. getPriority (blockchain (exam_sortedBalances scenario_balances ! 0)) = Num (Fin p) \<and>
          getPriority (blockchain (exam_sortedBalances scenario_balances ! Suc 0)) = Num (Fin q) \<and> q \<le> p) \<and>
   Suc 0 < length (refactored_formattedBalances (\<lambda>x. []) scenario_balances Map.empty) \<and>
   (\<exists>p q. getPriority (blockchain (refactored_formattedBalances (\<lambda>x. []) scenario_balances Map.empty ! 0)) = Num (Fin p) \<and>
          getPriority (blockchain (refactored_formattedBalances (\<lambda>x. []) scenario_balances Map.empty ! Suc 0)) = Num (Fin q) \<and> q \<le> p) \<and>
   Suc 0 < length (optimal_formattedBalances (\<lambda>x. []) scenario_balances Map.empty) \<and>
   (\<exists>p q. getPriority (blockchain (optimal_formattedBalances (\<lambda>x. []) scenario_balances Map.empty ! 0)) = Num (Fin p) \<and>
          getPriority (blockchain (optimal_formattedBalances (\<lambda>x. []) scenario_balances Map.empty ! Suc 0)) = Num (Fin q) \<and> q \<le> p)"
proof -
  have "Suc 0 < length (exam_sortedBalances scenario_balances)"
    by (simp add: scenario_sorted)
  moreover have "Suc 0 < length (refactored_formattedBalances (\<lambda>x. []) scenario_balances Map.empty)"
    by (simp add: scenario_refactored)
  moreover have "Suc 0 < length (optimal_formattedBalances (\<lambda>x. []) scenario_balances Map.empty)"
    by (simp add: scenario_optimal)
  ultimately show ?thesis
    using output_priority_descending [of scenario_balances "\<lambda>x. []" Map.empty] by blast
qed


text \<open>
  C6. The priority resolver is meant to return the configured priority of a configured
  chain and the sentinel \<open>-99\<close> for every other string. It does so for the five
  configured chains (\<open>getPriority_configured\<close>) and for every string that is not a
  property name of \<^verbatim>\<open>Object.prototype\<close> (\<open>getPriority_unknown\<close>), and the sentinel is
  below every configured priority (\<open>sentinel_lowest\<close>). For the chain \<^verbatim>\<open>constructor\<close>,
  which is not configured, it returns neither the sentinel nor a number at all: the
  lookup finds the inherited property, the function \<^verbatim>\<open>Object\<close>, and \<^verbatim>\<open>??\<close> lets it
  through.
\<close>

theorem getPriority_constructor:
  "getPriority ''constructor'' = BuiltinFn ''Object'' \<and>
   getPriority ''constructor'' \<noteq> Num DEFAULT_PRIORITY \<and>
   ''constructor'' \<notin> set Blockchain"
  by (simp add: lookup_defs Blockchain_def)

text \<open>
  C7. The formatted amount is meant to have exactly two decimal digits. The refactored
  and the optimal component call \<^verbatim>\<open>toFixed(2)\<close>; the exam calls \<^verbatim>\<open>toFixed()\<close>, which
  rounds to an integer: the balances of 2.5 \<^verbatim>\<open>ETH\<close> on Ethereum and of 20 \<^verbatim>\<open>ARB\<close> on
  Arbitrum are rendered as \<^verbatim>\<open>3\<close> and \<^verbatim>\<open>20\<close> by the exam, and as \<^verbatim>\<open>2.50\<close> and \<^verbatim>\<open>20.00\<close> by
  the other two.
\<close>

theorem exam_formats_without_decimals:
  "map row_formattedAmount (exam_rows N
     [\<lparr>currency = ''ETH'', amount = Fin (5 / 2), blockchain = ''Ethereum''\<rparr>,
      \<lparr>currency = ''ARB'', amount = Fin 20, blockchain = ''Arbitrum''\<rparr>] prices) = [''3'', ''20''] \<and>
   map formatted (refactored_formattedBalances N
     [\<lparr>currency = ''ETH'', amount = Fin (5 / 2), blockchain = ''Ethereum''\<rparr>,
      \<lparr>currency = ''ARB'', amount = Fin 20, blockchain = ''Arbitrum''\<rparr>] prices) = [''2.50'', ''20.00''] \<and>
   map formatted (optimal_formattedBalances N
     [\<lparr>currency = ''ETH'', amount = Fin (5 / 2), blockchain = ''Ethereum''\<rparr>,
      \<lparr>currency = ''ARB'', amount = Fin 20, blockchain = ''Arbitrum''\<rparr>] prices) = [''2.50'', ''20.00'']"
  by (simp add: wallet_eval js_eval)

text \<open>
  C8, as stated, fails: no component validates its input. A balance of infinite amount
  on Ethereum is not rejected: each component returns a row for it, formatted as
  \<^verbatim>\<open>Infinity\<close>, and with an empty price table its usdValue is \<^verbatim>\<open>NaN\<close> in each of them; a
  balance whose amount is \<^verbatim>\<open>NaN\<close> is dropped without an error.
\<close>

theorem nonfinite_amount_not_rejected:
  "optimal_formattedBalances (\<lambda>x. [])
     [\<lparr>currency = ''ETH'', amount = PosInf, blockchain = ''Ethereum''\<rparr>] Map.empty =
     [\<lparr>currency = ''ETH'', amount = PosInf, blockchain = ''Ethereum'',
       formatted = ''Infinity'', usdValue = NaN\<rparr>] \<and>
   refactored_formattedBalances (\<lambda>x. [])
     [\<lparr>currency = ''ETH'', amount = PosInf, blockchain = ''Ethereum''\<rparr>] Map.empty =
     [\<lparr>currency = ''ETH'', amount = PosInf, blockchain = ''Ethereum'',
       formatted = ''Infinity'', usdValue = NaN\<rparr>] \<and>
   exam_rows (\<lambda>x. [])
     [\<lparr>currency = ''ETH'', amount = PosInf, blockchain = ''Ethereum''\<rparr>] Map.empty =
     [\<lparr>row_className = ''wallet-row'', row_key = ''Ethereum-ETH'', row_amount = PosInf,
       row_usdValue = NaN, row_formattedAmount = ''Infinity''\<rparr>] \<and>
   optimal_formattedBalances (\<lambda>x. [])
     [\<lparr>currency = ''ETH'', amount = NaN, blockchain = ''Ethereum''\<rparr>] Map.empty = []"
  by (simp add: wallet_eval js_eval)

text \<open>
  C8, amended. The pipeline does not validate its input and has no error result. A
  balance whose amount is \<^verbatim>\<open>NaN\<close> or \<^verbatim>\<open>-Infinity\<close> never reaches the output of any
  component: the filter drops it. A balance of amount \<^verbatim>\<open>+Infinity\<close> on a configured chain
  is retained by every component; the refactored and the optimal component format it as
  \<^verbatim>\<open>Infinity\<close>.
\<close>

theorem malformed_amounts_pass_unvalidated:
  "(\<forall>r \<in> set (exam_sortedBalances balances). amount r \<noteq> NaN \<and> amount r \<noteq> NegInf) \<and>
   (\<forall>r \<in> set (refactored_formattedBalances N balances prices). amount r \<noteq> NaN \<and> amount r \<noteq> NegInf) \<and>
   (\<forall>r \<in> set (optimal_formattedBalances N balances prices). amount r \<noteq> NaN \<and> amount r \<noteq> NegInf) \<and>
   (\<forall>b \<in> set balances. amount b = PosInf \<and> blockchain b \<in> set Blockchain \<longrightarrow>
      b \<in> set (exam_sortedBalances balances) \<and>
      \<lparr>currency = currency b, amount = PosInf, blockchain = blockchain b, formatted = ''Infinity'',
        usdValue = js_times (js_get prices (currency b)) (Num PosInf)\<rparr>
        \<in> set (refactored_formattedBalances N balances prices) \<and>
      \<lparr>currency = currency b, amount = PosInf, blockchain = blockchain b, formatted = ''Infinity'',
        usdValue = js_times (nullish (js_get prices (currency b)) (Num (Fin 0))) (Num PosInf)\<rparr>
        \<in> set (optimal_formattedBalances N balances prices))"
proof -
  have 1: "amount r \<noteq> NaN \<and> amount r \<noteq> NegInf" if "r \<in> set (exam_sortedBalances balances)" for r
    using that unfolding exam_sortedBalances_def
    by (intro keep_balance_amount) (rule sorted_is_kept)
  have 2: "amount r \<noteq> NaN \<and> amount r \<noteq> NegInf"
    if "r \<in> set (refactored_formattedBalances N balances prices)" for r
  proof -
    from that obtain b where "b \<in> set (Array_sort refactored_compare (filter keep_balance balances))"
      and "amount r = amount b"
      by (auto simp add: refactored_formattedBalances_def)
    then show ?thesis using keep_balance_amount [OF sorted_is_kept] by simp
  qed
  have 3: "amount r \<noteq> NaN \<and> amount r \<noteq> NegInf"
    if "r \<in> set (optimal_formattedBalances N balances prices)" for r
  proof -
    from that obtain b where "b \<in> set (Array_sort sortByPriorityDesc (filter keep_balance balances))"
      and "amount r = amount b"
      by (auto simp add: optimal_formattedBalances_def)
    then show ?thesis using keep_balance_amount [OF sorted_is_kept] by simp
  qed
  have 4: "b \<in> set (exam_sortedBalances balances) \<and>
      \<lparr>currency = currency b, amount = PosInf, blockchain = blockchain b, formatted = ''Infinity'',
        usdValue = js_times (js_get prices (currency b)) (Num PosInf)\<rparr>
        \<in> set (refactored_formattedBalances N balances prices) \<and>
      \<lparr>currency = currency b, amount = PosInf, blockchain = blockchain b, formatted = ''Infinity'',
        usdValue = js_times (nullish (js_get prices (currency b)) (Num (Fin 0))) (Num PosInf)\<rparr>
        \<in> set (optimal_formattedBalances N balances prices)"
    if b: "b \<in> set balances" and inf: "amount b = PosInf" and chain: "blockchain b \<in> set Blockchain" for b
  proof -
    have k: "keep_balance b" using inf chain by (simp add: keep_balance_iff)
    note m = kept_in_sorted [OF b k]
    have "b \<in> set (exam_sortedBalances balances)"
      unfolding exam_sortedBalances_def by (rule m)
    moreover have "(\<lambda>balance.
            \<lparr>currency = currency balance, amount = amount balance, blockchain = blockchain balance,
             formatted = toFixed N 2 (amount balance),
             usdValue = js_times (js_get prices (currency balance)) (Num (amount balance))\<rparr>) b
        \<in> set (refactored_formattedBalances N balances prices)"
      unfolding refactored_formattedBalances_def set_map by (rule imageI) (rule m)
    moreover have "(\<lambda>balance.
            \<lparr>currency = currency balance, amount = amount balance, blockchain = blockchain balance,
             formatted = toFixed N 2 (amount balance),
             usdValue = js_times (nullish (js_get prices (currency balance)) (Num (Fin 0)))
                          (Num (amount balance))\<rparr>) b
        \<in> set (optimal_formattedBalances N balances prices)"
      unfolding optimal_formattedBalances_def set_map by (rule imageI) (rule m)
    ultimately show ?thesis by (simp add: inf toFixed_def)
  qed
  show ?thesis using 1 2 3 4 by blast
qed

theorem malformed_amounts_pass_unvalidated_witness:
  "\<lparr>currency = ''ETH'', amount = PosInf, blockchain = ''Ethereum''\<rparr>
     \<in> set [\<lparr>currency = ''ETH'', amount = PosInf, blockchain = ''Ethereum''\<rparr>] \<and>
   ''Ethereum'' \<in> set Blockchain \<and>
   \<lparr>currency = ''ETH'', amount = PosInf, blockchain = ''Ethereum''\<rparr>
     \<in> set (exam_sortedBalances [\<lparr>currency = ''ETH'', amount = PosInf, blockchain = ''Ethereum''\<rparr>]) \<and>
   \<lparr>currency = ''ETH'', amount = PosInf, blockchain = ''Ethereum'', formatted = ''Infinity'',
     usdValue = js_times (js_get Map.empty ''ETH'') (Num PosInf)\<rparr>
     \<in> set (refactored_formattedBalances (\<lambda>x. [])
          [\<lparr>currency = ''ETH'', amount = PosInf, blockchain = ''Ethereum''\<rparr>] Map.empty) \<and>
   \<lparr>currency = ''ETH'', amount = PosInf, blockchain = ''Ethereum'', formatted = ''Infinity'',
     usdValue = js_times (nullish (js_get Map.empty ''ETH'') (Num (Fin 0))) (Num PosInf)\<rparr>
     \<in> set (optimal_formattedBalances (\<lambda>x. [])
          [\<lparr>currency = ''ETH'', amount = PosInf, blockchain = ''Ethereum''\<rparr>] Map.empty) \<and>
   amount \<lparr>currency = ''ETH'', amount = PosInf, blockchain = ''Ethereum''\<rparr> \<noteq> NaN"
proof -
  let ?b = "\<lparr>currency = ''ETH'', amount = PosInf, blockchain = ''Ethereum''\<rparr>"
  note t = malformed_amounts_pass_unvalidated [of "[?b]" "\<lambda>x. []" Map.empty]
  have m: "?b \<in> set [?b]" by simp
  have c: "''Ethereum'' \<in> set Blockchain" by (simp add: Blockchain_def)
  from t have "\<forall>b \<in> set [?b]. amount b = PosInf \<and> blockchain b \<in> set Blockchain \<longrightarrow>
      b \<in> set (exam_sortedBalances [?b]) \<and>
      \<lparr>currency = currency b, amount = PosInf, blockchain = blockchain b, formatted = ''Infinity'',
        usdValue = js_times (js_get Map.empty (currency b)) (Num PosInf)\<rparr>
        \<in> set (refactored_formattedBalances (\<lambda>x. []) [?b] Map.empty) \<and>
      \<lparr>currency = currency b, amount = PosInf, blockchain = blockchain b, formatted = ''Infinity'',
        usdValue = js_times (nullish (js_get Map.empty (currency b)) (Num (Fin 0))) (Num PosInf)\<rparr>
        \<in> set (optimal_formattedBalances (\<lambda>x. []) [?b] Map.empty)"
    by blast
  from bspec [OF this m] c
  have 1: "?b \<in> set (exam_sortedBalances [?b]) \<and>
      \<lparr>currency = ''ETH'', amount = PosInf, blockchain = ''Ethereum'', formatted = ''Infinity'',
        usdValue = js_times (js_get Map.empty ''ETH'') (Num PosInf)\<rparr>
        \<in> set (refactored_formattedBalances (\<lambda>x. []) [?b] Map.empty) \<and>
      \<lparr>currency = ''ETH'', amount = PosInf, blockchain = ''Ethereum'', formatted = ''Infinity'',
        usdValue = js_times (nullish (js_get Map.empty ''ETH'') (Num (Fin 0))) (Num PosInf)\<rparr>
        \<in> set (optimal_formattedBalances (\<lambda>x. []) [?b] Map.empty)"
    by simp
  from t have "\<forall>r \<in> set (exam_sortedBalances [?b]). amount r \<noteq> NaN \<and> amount r \<noteq> NegInf"
    by blast
  with 1 have "amount ?b \<noteq> NaN" by blast
  with m c 1 show ?thesis by blast
qed


text \<open>
  C10, as stated, fails. The numbers are binary64 values, so sums above \<open>2^53\<close> are
  rounded: for \<open>n = 134217730\<close>, where \<open>n (n + 1) / 2 = 9007199590285315\<close>, the formula
  of \<open>sum_to_n_a\<close> returns 9007199590285316 and the loop of \<open>sum_to_n_b\<close> returns
  9007199590285314. And \<open>sum_to_n_c\<close> does not return on every integer: with room for
  12000 nested calls, or for fewer, the call for \<open>n = 12000\<close> throws \<^verbatim>\<open>RangeError\<close>.
\<close>

theorem sums_differ_beyond_exact_integers:
  "sum_to_n_a (Fin 134217730) = Fin 9007199590285316 \<and>
   sum_to_n_b (Fin 134217730) = Some (Fin 9007199590285314) \<and>
   (134217730 * (134217730 + 1) div 2 :: int) = 9007199590285315 \<and>
   sum_to_n_c 12000 (Fin 12000) = Inl RangeError"
proof -
  have "sum_to_n_c 12000 (Fin (of_int 12000)) = Inl RangeError"
    by (rule sum_to_n_c_overflow) simp_all
  then show ?thesis
    by (simp add: sum_to_n_a_134217730 sum_to_n_b_134217730)
qed

text \<open>
  C10, amended. For every integer \<open>n \<ge> 0\<close> with \<open>n (n + 1) / 2 \<le> 2^53\<close>, \<open>sum_to_n_a\<close>
  and \<open>sum_to_n_b\<close> return \<open>n (n + 1) / 2\<close>, and \<open>sum_to_n_c\<close> returns the same value
  when the call stack has room for \<open>n + 1\<close> nested calls and throws \<^verbatim>\<open>RangeError\<close> when
  it has not; with room for one call, \<open>sum_to_n_c\<close> returns 0 for every number
  \<open>x \<le> 0\<close>. On every input \<open>sum_to_n_c\<close> ends, with a value or with the error: it is a
  total function of the room and the input.
\<close>

theorem sums_agree_on_exact_integers:
  "(0 \<le> n \<and> n * (n + 1) div 2 \<le> 2 ^ 53 \<longrightarrow>
      sum_to_n_a (Fin (of_int n)) = Fin (of_int (n * (n + 1) div 2)) \<and>
      sum_to_n_b (Fin (of_int n)) = Some (Fin (of_int (n * (n + 1) div 2))) \<and>
      (n < int frames \<longrightarrow>
         sum_to_n_c frames (Fin (of_int n)) = Inr (Fin (of_int (n * (n + 1) div 2)))) \<and>
      (int frames \<le> n \<longrightarrow> sum_to_n_c frames (Fin (of_int n)) = Inl RangeError)) \<and>
   (num_le x (Fin 0) \<and> 0 < frames \<longrightarrow> sum_to_n_c frames x = Inr (Fin 0))"
proof -
  have 1: "sum_to_n_c frames (Fin (of_int n)) = Inl RangeError"
    if "0 \<le> n" and "n * (n + 1) div 2 \<le> 2 ^ 53" and "int frames \<le> n"
  proof -
    have "n \<le> 2 ^ 53" using tri_ge_succ [OF that(1,2)] by simp
    with that show ?thesis by (intro sum_to_n_c_overflow)
  qed
  have 2: "sum_to_n_c frames x = Inr (Fin 0)" if "num_le x (Fin 0)" and "0 < frames"
    using that sum_to_n_c_le_0 [of x "frames - 1"] by simp
  show ?thesis
    using sum_to_n_a_exact [of n] sum_to_n_b_exact [of n] sum_to_n_c_exact [of n frames] 1 2
    by blast
qed

theorem sums_agree_on_exact_integers_witness:
  "(0::int) \<le> 10 \<and> (10 * (10 + 1) div 2 :: int) \<le> 2 ^ 53 \<and>
   sum_to_n_a (Fin 10) = Fin 55 \<and> sum_to_n_b (Fin 10) = Some (Fin 55) \<and>
   (10::int) < int 11 \<and> sum_to_n_c 11 (Fin 10) = Inr (Fin 55) \<and>
   int 10 \<le> (10::int) \<and> sum_to_n_c 10 (Fin 10) = Inl RangeError \<and>
   num_le (Fin (- 3)) (Fin 0) \<and> (0::nat) < 11 \<and> sum_to_n_c 11 (Fin (- 3)) = Inr (Fin 0)"
proof -
  have "num_le (Fin (- 3)) (Fin 0)" by (simp add: num_le_def)
  then show ?thesis
    using sums_agree_on_exact_integers [of 10 11 "Fin (- 3)"]
      sums_agree_on_exact_integers [of 10 10 "Fin (- 3)"]
    by simp
qed

end
